theory Spec2Isabelle
  imports Main "HOL-Library.AList" "HOL-Library.Sublist"
begin

section \<open>Python values, exceptions and strings\<close>

text \<open>
  The handlers of \<^verbatim>\<open>custom_components/display_tools/__init__.py\<close> work on dynamically
  typed values: the \<^verbatim>\<open>keys\<close> parameter of a service call may be \<^verbatim>\<open>None\<close>, a string, a
  list of anything, and \<^verbatim>\<open>json.loads\<close> may return any JSON value. \<open>pyval\<close> is the part of
  Python's value universe these paths can see. A \<^verbatim>\<open>str\<close> is a \<open>string\<close> (code points
  below 256), a \<^verbatim>\<open>float\<close> \<open>PFloat m e\<close> stands for \<open>m * 2 ^ e\<close>, and a \<^verbatim>\<open>dict\<close> is an
  association list in insertion order.
\<close>

datatype pyval =
    PNone
  | PBool bool
  | PInt int
  | PFloat int int
  | PStr string
  | PBytes string
  | PList "pyval list"
  | PTuple "pyval list"
  | PDict "(pyval \<times> pyval) list"

type_synonym pydict = "(pyval \<times> pyval) list"

text \<open>Dictionaries whose keys are known to be \<^verbatim>\<open>str\<close>: stored data, sensor attributes.\<close>

type_synonym strdict = "(string \<times> pyval) list"

text \<open>
  The exceptions the modelled code can see, all of them subclasses of \<^verbatim>\<open>Exception\<close>.
  \<open>OtherException\<close> carries the class name of anything else a library call may raise
  (\<^verbatim>\<open>RecursionError\<close>, \<^verbatim>\<open>OSError\<close>, \<^verbatim>\<open>aiohttp.ClientError\<close>, ...).
\<close>

datatype exn =
    JSONDecodeError
  | TypeError
  | AttributeError
  | KeyError
  | OtherException string

text \<open>\<^verbatim>\<open>try: body except Exception as e: handler(e)\<close>\<close>

definition try_except :: "exn + 'a \<Rightarrow> (exn \<Rightarrow> exn + 'a) \<Rightarrow> exn + 'a" where
  "try_except body handler = (case body of Inl e \<Rightarrow> handler e | Inr v \<Rightarrow> Inr v)"

text \<open>Truth value testing: \<^verbatim>\<open>if keys:\<close>, \<^verbatim>\<open>if not keys:\<close>.\<close>

fun truthy :: "pyval \<Rightarrow> bool" where
  "truthy PNone = False"
| "truthy (PBool b) = b"
| "truthy (PInt i) = (i \<noteq> 0)"
| "truthy (PFloat m e) = (m \<noteq> 0)"
| "truthy (PStr s) = (s \<noteq> [])"
| "truthy (PBytes s) = (s \<noteq> [])"
| "truthy (PList xs) = (xs \<noteq> [])"
| "truthy (PTuple xs) = (xs \<noteq> [])"
| "truthy (PDict d) = (d \<noteq> [])"

text \<open>\<^verbatim>\<open>for key in keys\<close>: the elements an iteration yields, or \<^verbatim>\<open>TypeError\<close>.\<close>

fun py_iter :: "pyval \<Rightarrow> exn + pyval list" where
  "py_iter (PList xs) = Inr xs"
| "py_iter (PTuple xs) = Inr xs"
| "py_iter (PDict d) = Inr (map fst d)"
| "py_iter (PStr s) = Inr (map (\<lambda>c. PStr [c]) s)"
| "py_iter (PBytes s) = Inr (map (\<lambda>c. PInt (of_char c)) s)"
| "py_iter PNone = Inl TypeError"
| "py_iter (PBool b) = Inl TypeError"
| "py_iter (PInt i) = Inl TypeError"
| "py_iter (PFloat m e) = Inl TypeError"

text \<open>\<^verbatim>\<open>len(keys)\<close>\<close>

fun py_len :: "pyval \<Rightarrow> exn + nat" where
  "py_len (PList xs) = Inr (length xs)"
| "py_len (PTuple xs) = Inr (length xs)"
| "py_len (PDict d) = Inr (length d)"
| "py_len (PStr s) = Inr (length s)"
| "py_len (PBytes s) = Inr (length s)"
| "py_len PNone = Inl TypeError"
| "py_len (PBool b) = Inl TypeError"
| "py_len (PInt i) = Inl TypeError"
| "py_len (PFloat m e) = Inl TypeError"

text \<open>
  A dictionary key must be hashable: lists and dictionaries are not, a tuple is when its
  elements are.
\<close>

fun hashable :: "pyval \<Rightarrow> bool" where
  "hashable (PList xs) = False"
| "hashable (PDict d) = False"
| "hashable (PTuple xs) = list_all hashable xs"
| "hashable v = True"

text \<open>
  \<^verbatim>\<open>str.isspace\<close> on the code points below 256: tab to carriage return, the four
  separators 28 to 31, the space, NEL and the no-break space.
\<close>

definition isspace :: "char \<Rightarrow> bool" where
  "isspace c = ((of_char c :: nat) \<in> {9, 10, 11, 12, 13, 28, 29, 30, 31, 32, 133, 160})"

text \<open>\<^verbatim>\<open>s.strip()\<close>\<close>

definition strip :: "string \<Rightarrow> string" where
  "strip s = rev (dropWhile isspace (rev (dropWhile isspace s)))"

text \<open>
  \<^verbatim>\<open>s.split(sep)\<close> for a one-character separator: one piece more than there are
  separators, empty pieces kept.
\<close>

fun split_str :: "char \<Rightarrow> string \<Rightarrow> string list" where
  "split_str sep [] = [[]]"
| "split_str sep (c # cs) =
     (if c = sep then [] # split_str sep cs
      else (case split_str sep cs of
              [] \<Rightarrow> [[c]]
            | p # ps \<Rightarrow> (c # p) # ps))"

section \<open>Filtering translations by keys\<close>

text \<open>
  A dictionary finds a key by its hash and \<^verbatim>\<open>==\<close>. On hashable values \<^verbatim>\<open>==\<close> is
  structural, except that numbers are compared by value across their types:
  \<^verbatim>\<open>True == 1 == 1.0\<close>. \<open>number\<close> gives a number as mantissa and binary exponent.
\<close>

fun number :: "pyval \<Rightarrow> (int \<times> int) option" where
  "number (PBool b) = Some (if b then 1 else 0, 0)"
| "number (PInt i) = Some (i, 0)"
| "number (PFloat m e) = Some (m, e)"
| "number v = None"

definition same_number :: "int \<times> int \<Rightarrow> int \<times> int \<Rightarrow> bool" where
  "same_number a b =
     (let l = min (snd a) (snd b)
      in fst a * 2 ^ nat (snd a - l) = fst b * 2 ^ nat (snd b - l))"

fun key_eq :: "pyval \<Rightarrow> pyval \<Rightarrow> bool"
  and keys_eq :: "pyval list \<Rightarrow> pyval list \<Rightarrow> bool" where
  "key_eq (PTuple xs) (PTuple ys) = keys_eq xs ys"
| "key_eq v w =
     (case (number v, number w) of
        (Some a, Some b) \<Rightarrow> same_number a b
      | (None, None) \<Rightarrow> v = w
      | _ \<Rightarrow> False)"
| "keys_eq [] [] = True"
| "keys_eq (x # xs) (y # ys) = (key_eq x y \<and> keys_eq xs ys)"
| "keys_eq xs ys = False"

text \<open>
  \<^verbatim>\<open>key in d\<close> and \<^verbatim>\<open>d[key]\<close>: the value of the entry whose key equals \<^verbatim>\<open>key\<close>.
\<close>

fun dict_get :: "pydict \<Rightarrow> pyval \<Rightarrow> pyval option" where
  "dict_get [] key = None"
| "dict_get ((k, v) # d) key = (if key_eq k key then Some v else dict_get d key)"

text \<open>
  \<^verbatim>\<open>d[key] = val\<close>: an entry with an equal key keeps its key and its place and gets the
  value, otherwise a new entry goes to the end.
\<close>

fun dict_set :: "pyval \<Rightarrow> pyval \<Rightarrow> pydict \<Rightarrow> pydict" where
  "dict_set key val [] = [(key, val)]"
| "dict_set key val ((k, v) # d) =
     (if key_eq k key then (k, val) # d else (k, v) # dict_set key val d)"

text \<open>
  \<^verbatim>\<open>_filter_translations_by_keys(translations, keys)\<close>. The loop body stores
  \<^verbatim>\<open>translations[key]\<close> when the key is there and the key itself otherwise;
  \<^verbatim>\<open>key in translations\<close> hashes the key first.
\<close>

fun filter_loop :: "pydict \<Rightarrow> pyval list \<Rightarrow> pydict \<Rightarrow> exn + pydict" where
  "filter_loop translations [] filtered = Inr filtered"
| "filter_loop translations (key # keys) filtered =
     (if \<not> hashable key then Inl TypeError
      else filter_loop translations keys
             (dict_set key
                (case dict_get translations key of Some v \<Rightarrow> v | None \<Rightarrow> key) filtered))"

definition filter_translations_by_keys :: "pydict \<Rightarrow> pyval \<Rightarrow> exn + pydict" where
  "filter_translations_by_keys translations keys =
     (if \<not> truthy keys then Inr translations
      else (case py_iter keys of
              Inl e \<Rightarrow> Inl e
            | Inr ks \<Rightarrow> filter_loop translations ks []))"

section \<open>Grouping translations by component\<close>

text \<open>
  The grouping loop of \<^verbatim>\<open>handle_get_translations_esphome\<close>. \<open>grouped\<close> maps a
  component name to its dictionary from final key to value; both levels have \<^verbatim>\<open>str\<close>
  keys, being pieces of a split string. A key without \<^verbatim>\<open>split\<close> raises
  \<^verbatim>\<open>AttributeError\<close>, \<^verbatim>\<open>bytes.split('.')\<close> raises \<^verbatim>\<open>TypeError\<close>.
\<close>

type_synonym grouped = "(string \<times> strdict) list"

definition group_entry :: "string \<Rightarrow> pyval \<Rightarrow> grouped \<Rightarrow> grouped" where
  "group_entry key val grouped_translations =
     (let parts = split_str CHR ''.'' key in
      if length parts \<ge> 2 \<and> hd parts = ''component'' then
        (let component = parts ! 1;
             final_key = last parts;
             component_translations =
               (case map_of grouped_translations component of
                  None \<Rightarrow> []
                | Some d \<Rightarrow> d)
         in AList.update component (AList.update final_key val component_translations)
              grouped_translations)
      else grouped_translations)"

fun group_loop :: "pydict \<Rightarrow> grouped \<Rightarrow> exn + grouped" where
  "group_loop [] grouped_translations = Inr grouped_translations"
| "group_loop ((key, val) # items) grouped_translations =
     (case key of
        PStr s \<Rightarrow> group_loop items (group_entry s val grouped_translations)
      | PBytes s \<Rightarrow> Inl TypeError
      | _ \<Rightarrow> Inl AttributeError)"

definition group_translations :: "pydict \<Rightarrow> exn + grouped" where
  "group_translations translations = group_loop translations []"

section \<open>The host platform and the libraries\<close>

text \<open>Constants of \<^verbatim>\<open>const.py\<close>.\<close>

definition SENSOR_ENTITY_ID :: string where
  "SENSOR_ENTITY_ID = ''sensor.display_tools''"

definition TRANSLATION_CATEGORIES :: "string list" where
  "TRANSLATION_CATEGORIES =
     [''title'', ''state'', ''entity'', ''entity_component'', ''exceptions'', ''config'',
      ''config_subentries'', ''config_panel'', ''options'', ''device_automation'',
      ''mfa_setup'', ''system_health'', ''application_credentials'', ''issues'',
      ''selector'', ''services'']"

definition COVER_SIZES :: "(string \<times> (nat \<times> nat)) list" where
  "COVER_SIZES = [(''small'', (120, 120)), (''large'', (160, 160))]"

text \<open>
  An image as Pillow holds it: its mode, its size, and for every pixel the colour it has
  once in mode RGB (what \<^verbatim>\<open>paste\<close> into an RGB image copies).
\<close>

type_synonym colour = "nat \<times> nat \<times> nat"

record image =
  mode :: string
  width :: nat
  height :: nat
  rgb :: "int \<Rightarrow> int \<Rightarrow> colour"

text \<open>A file written by \<^verbatim>\<open>Image.save(path, format, quality=q)\<close>.\<close>

record saved_file =
  file_image :: image
  file_format :: string
  file_quality :: nat

record http_response =
  status :: int
  read :: "exn + string"

text \<open>
  The log: \<^verbatim>\<open>_LOGGER.error\<close> and \<^verbatim>\<open>_LOGGER.info\<close> calls, each message kept as its
  template and the values formatted into it.
\<close>

datatype level = ERROR | INFO

datatype message =
    Error_fetching_translations string string exn
  | Error_processing_keys exn
  | Error_in_get_translations_esphome exn
  | Updated_sensor nat string
  | Entity_not_found string
  | No_entity_picture string
  | Failed_to_download string int
  | Saved_cover string "nat \<times> nat"
  | Error_processing_image exn
  | Error_in_download_and_process_cover exn
  | Processing_cover string string
  | Processed_cover string
  | Failed_to_process_cover string
  | Error_in_save_media_cover exn

type_synonym log_entry = "level \<times> message"

text \<open>
  What the code reads and writes in its host: the state machine (\<^verbatim>\<open>hass.states\<close>), the
  single record of the \<^verbatim>\<open>Store\<close> (\<open>None\<close> before the first save), the files under
  \<^verbatim>\<open>/config/www\<close>, and the log.
\<close>

record entity_state =
  state :: string
  attributes :: strdict

record hass =
  states :: "string \<Rightarrow> entity_state option"
  store :: "strdict option"
  files :: "string \<Rightarrow> saved_file option"
  logged :: "log_entry list"

text \<open>
  What the code calls outside this repository, taken as parameters: Python's
  \<^verbatim>\<open>json\<close> module and \<^verbatim>\<open>str\<close>, the platform's translation lookup, the failures of
  the \<^verbatim>\<open>Store\<close>, the HTTP client, Pillow's decoder, mode conversion and
  \<^verbatim>\<open>thumbnail\<close>, and the failures of \<^verbatim>\<open>os.makedirs\<close> and \<^verbatim>\<open>Image.save\<close>.
\<close>

record env =
  json_loads :: "string \<Rightarrow> exn + pyval"
  json_dumps :: "strdict \<Rightarrow> exn + string"
  py_str :: "pyval \<Rightarrow> string"
  exn_str :: "exn \<Rightarrow> string"
  async_get_translations :: "string \<Rightarrow> string \<Rightarrow> exn + pydict"
  async_load_error :: "exn option"
  async_save_error :: "exn option"
  server_port :: pyval
  session_get :: "string \<Rightarrow> exn + http_response"
  Image_open :: "string \<Rightarrow> exn + image"
  convert_RGB :: "image \<Rightarrow> exn + image"
  thumbnail :: "nat \<times> nat \<Rightarrow> image \<Rightarrow> exn + image"
  makedirs_error :: "exn option"
  save_error :: "exn option"

definition log_to :: "hass \<Rightarrow> log_entry list \<Rightarrow> hass" where
  "log_to h entries = h\<lparr>logged := logged h @ entries\<rparr>"

section \<open>Normalising the keys parameter\<close>

text \<open>\<^verbatim>\<open>[k.strip() for k in s.split(',') if k.strip()]\<close>\<close>

definition comma_split :: "string \<Rightarrow> string list" where
  "comma_split s = map strip (filter (\<lambda>k. strip k \<noteq> []) (split_str CHR '','' s))"

text \<open>
  \<^verbatim>\<open>try: keys = json.loads(s) except json.JSONDecodeError: keys = [...]\<close>: only a
  \<^verbatim>\<open>JSONDecodeError\<close> is handled here, anything else goes on to the enclosing handler.
\<close>

definition json_or_split :: "env \<Rightarrow> string \<Rightarrow> exn + pyval" where
  "json_or_split e s =
     (case json_loads e s of
        Inr v \<Rightarrow> Inr v
      | Inl JSONDecodeError \<Rightarrow> Inr (PList (map PStr (comma_split s)))
      | Inl x \<Rightarrow> Inl x)"

text \<open>
  The body of the \<^verbatim>\<open>try\<close> of lines 308 to 338 of
  \<^verbatim>\<open>handle_get_translations_esphome\<close>, for \<^verbatim>\<open>keys_raw\<close> other than \<^verbatim>\<open>None\<close>. The
  branches are in the order of the source: a list of length 1, any other list, a
  string, another iterable that is neither \<^verbatim>\<open>str\<close> nor \<^verbatim>\<open>bytes\<close>, anything else.
\<close>

fun normalize_keys_body :: "env \<Rightarrow> pyval \<Rightarrow> exn + pyval" where
  "normalize_keys_body e (PList [single_item]) =
     (case single_item of
        PStr s \<Rightarrow> json_or_split e s
      | _ \<Rightarrow> Inr (PList [PStr (py_str e single_item)]))"
| "normalize_keys_body e (PList keys_raw) = Inr (PList keys_raw)"
| "normalize_keys_body e (PStr s) = json_or_split e s"
| "normalize_keys_body e (PTuple xs) = Inr (PList xs)"
| "normalize_keys_body e (PDict d) = Inr (PList (map fst d))"
| "normalize_keys_body e keys_raw = Inr (PList [PStr (py_str e keys_raw)])"

text \<open>
  Lines 306 to 342: \<^verbatim>\<open>keys\<close> starts as \<^verbatim>\<open>None\<close>, the body runs when \<^verbatim>\<open>keys_raw\<close> is
  not \<^verbatim>\<open>None\<close>, and \<^verbatim>\<open>except Exception\<close> logs and resets \<^verbatim>\<open>keys\<close> to \<^verbatim>\<open>None\<close>. The
  result is the value of \<^verbatim>\<open>keys\<close> and what was logged.
\<close>

definition normalize_keys :: "env \<Rightarrow> pyval \<Rightarrow> exn + pyval \<times> log_entry list" where
  "normalize_keys e keys_raw =
     (if keys_raw = PNone then Inr (PNone, [])
      else try_except
             (case normalize_keys_body e keys_raw of
                Inl x \<Rightarrow> Inl x
              | Inr keys \<Rightarrow> Inr (keys, []))
             (\<lambda>x. Inr (PNone, [(ERROR, Error_processing_keys x)])))"

section \<open>The ESPHome service\<close>

text \<open>\<^verbatim>\<open>_fetch_translations_for_category\<close>: a failed lookup is logged and gives \<^verbatim>\<open>{}\<close>.\<close>

definition fetch_translations_for_category ::
  "env \<Rightarrow> string \<Rightarrow> string \<Rightarrow> pydict \<times> log_entry list" where
  "fetch_translations_for_category e language category =
     (case async_get_translations e language category of
        Inr translations \<Rightarrow> (translations, [])
      | Inl err \<Rightarrow> ([], [(ERROR, Error_fetching_translations language category err)]))"

text \<open>\<^verbatim>\<open>grouped_translations\<close> as the Python value that is stored.\<close>

definition grouped_to_py :: "grouped \<Rightarrow> pyval" where
  "grouped_to_py g =
     PDict (map (\<lambda>(component, d). (PStr component, PDict (map (\<lambda>(k, v). (PStr k, v)) d))) g)"

text \<open>\<^verbatim>\<open>len(keys) if keys else 0\<close>\<close>

definition requested_keys_count :: "pyval \<Rightarrow> exn + nat" where
  "requested_keys_count keys = (if truthy keys then py_len keys else Inr 0)"

text \<open>
  \<^verbatim>\<open>stored_data.update({...})\<close> of lines 371 to 377: the five entries of the literal are
  written in its order; a key already there keeps its place, a new one goes to the end.
\<close>

definition update_stored_data ::
  "string \<Rightarrow> string \<Rightarrow> grouped \<Rightarrow> nat \<Rightarrow> nat \<Rightarrow> strdict \<Rightarrow> strdict" where
  "update_stored_data language category grouped_translations translations_count keys_count
       stored_data =
     AList.update ''requested_keys_count'' (PInt (int keys_count))
      (AList.update ''translations_count'' (PInt (int translations_count))
        (AList.update ''grouped_translations'' (grouped_to_py grouped_translations)
          (AList.update ''category'' (PStr category)
            (AList.update ''language'' (PStr language) stored_data))))"

text \<open>The attributes of the sensor before the components are added (lines 383 to 392).\<close>

definition sensor_attributes :: "string \<Rightarrow> string \<Rightarrow> nat \<Rightarrow> nat \<Rightarrow> strdict" where
  "sensor_attributes language category translations_count keys_count =
     [(''friendly_name'', PStr ''Display Tools''),
      (''icon'', PStr ''mdi:monitor-dashboard''),
      (''language'', PStr language),
      (''category'', PStr category),
      (''translations_count'', PInt (int translations_count)),
      (''available_categories'', PList (map PStr TRANSLATION_CATEGORIES)),
      (''available_cover_sizes'', PList (map (\<lambda>p. PStr (fst p)) COVER_SIZES)),
      (''requested_keys_count'', PInt (int keys_count))]"

text \<open>
  Lines 395 and 396: one attribute per component, its translations as JSON text.
\<close>

fun component_attributes :: "env \<Rightarrow> grouped \<Rightarrow> strdict \<Rightarrow> exn + strdict" where
  "component_attributes e [] attrs = Inr attrs"
| "component_attributes e ((component, component_translations) # rest) attrs =
     (case json_dumps e component_translations of
        Inl err \<Rightarrow> Inl err
      | Inr text \<Rightarrow> component_attributes e rest (AList.update component (PStr text) attrs))"

text \<open>The attributes of the sensor in the state \<^verbatim>\<open>error\<close> (lines 414 to 420).\<close>

definition error_attributes :: "env \<Rightarrow> exn \<Rightarrow> strdict" where
  "error_attributes e err =
     [(''friendly_name'', PStr ''Display Tools''),
      (''icon'', PStr ''mdi:monitor-off''),
      (''error'', PStr (exn_str e err)),
      (''available_categories'', PList (map PStr TRANSLATION_CATEGORIES)),
      (''available_cover_sizes'', PList (map (\<lambda>p. PStr (fst p)) COVER_SIZES))]"

text \<open>
  The \<^verbatim>\<open>try\<close> block of lines 344 to 405. It returns the exception that left it, if any,
  and the host as it was at that moment: a failure after \<^verbatim>\<open>async_save\<close> leaves the new
  record stored. A dictionary from the platform has distinct keys, so \<^verbatim>\<open>len\<close> is the
  length of the association list.
\<close>

definition esphome_try :: "env \<Rightarrow> string \<Rightarrow> string \<Rightarrow> pyval \<Rightarrow> hass \<Rightarrow> exn option \<times> hass" where
  "esphome_try e language category keys h0 =
     (let (fetched, fetch_log) = fetch_translations_for_category e language category;
          h = log_to h0 fetch_log
      in case (if truthy keys then filter_translations_by_keys fetched keys else Inr fetched) of
           Inl err \<Rightarrow> (Some err, h)
         | Inr translations \<Rightarrow>
        (case group_translations translations of
           Inl err \<Rightarrow> (Some err, h)
         | Inr grouped_translations \<Rightarrow>
        (case async_load_error e of
           Some err \<Rightarrow> (Some err, h)
         | None \<Rightarrow>
        (case requested_keys_count keys of
           Inl err \<Rightarrow> (Some err, h)
         | Inr keys_count \<Rightarrow>
        (let stored_data =
               update_stored_data language category grouped_translations
                 (length translations) keys_count
                 (case store h of None \<Rightarrow> [] | Some d \<Rightarrow> d)
         in case async_save_error e of
              Some err \<Rightarrow> (Some err, h)
            | None \<Rightarrow>
           (let h1 = h\<lparr>store := Some stored_data\<rparr>
            in case component_attributes e grouped_translations
                      (sensor_attributes language category (length translations) keys_count) of
                 Inl err \<Rightarrow> (Some err, h1)
               | Inr attrs \<Rightarrow>
                   (None,
                    log_to
                      (h1\<lparr>states := (states h1)(SENSOR_ENTITY_ID \<mapsto>
                                     \<lparr>state = language, attributes = attrs\<rparr>)\<rparr>)
                      [(INFO, Updated_sensor (length grouped_translations) language)])))))))"

text \<open>
  \<^verbatim>\<open>handle_get_translations_esphome\<close>: the keys are normalised outside the
  \<^verbatim>\<open>try\<close> block, so an exception of the normaliser would leave the handler; an exception
  of the block is logged and puts the sensor into the state \<^verbatim>\<open>error\<close>.
\<close>

definition handle_get_translations_esphome ::
  "env \<Rightarrow> string \<Rightarrow> string \<Rightarrow> pyval \<Rightarrow> hass \<Rightarrow> exn + hass" where
  "handle_get_translations_esphome e language category keys_raw h =
     (case normalize_keys e keys_raw of
        Inl err \<Rightarrow> Inl err
      | Inr (keys, keys_log) \<Rightarrow>
          (case esphome_try e language category keys (log_to h keys_log) of
             (None, h') \<Rightarrow> Inr h'
           | (Some err, h') \<Rightarrow>
               Inr ((log_to h' [(ERROR, Error_in_get_translations_esphome err)])
                      \<lparr>states := (states h')(SENSOR_ENTITY_ID \<mapsto>
                          \<lparr>state = ''error'', attributes = error_attributes e err\<rparr>)\<rparr>)))"

section \<open>The media cover\<close>

text \<open>
  \<^verbatim>\<open>Image.new(mode, size, color)\<close> and \<^verbatim>\<open>Image.paste(im, (x, y))\<close>, by Pillow's
  documentation: a new image has the given size and every pixel of the given colour;
  pasting copies the pixels of \<^verbatim>\<open>im\<close> into the region of its size whose upper left
  corner is \<^verbatim>\<open>(x, y)\<close> and leaves the others.
\<close>

definition Image_new :: "string \<Rightarrow> nat \<times> nat \<Rightarrow> colour \<Rightarrow> image" where
  "Image_new m sz color =
     \<lparr>mode = m, width = fst sz, height = snd sz, rgb = (\<lambda>i j. color)\<rparr>"

definition paste :: "image \<Rightarrow> image \<Rightarrow> int \<times> int \<Rightarrow> image" where
  "paste canvas im box =
     canvas\<lparr>rgb := (\<lambda>i j.
        if fst box \<le> i \<and> i < fst box + int (width im) \<and>
           snd box \<le> j \<and> j < snd box + int (height im)
        then rgb im (i - fst box) (j - snd box)
        else rgb canvas i j)\<rparr>"

text \<open>
  The inner \<^verbatim>\<open>try\<close> block of \<^verbatim>\<open>_download_and_process_cover\<close> (lines 149 to 179): the
  path and the file it writes, or the exception that left it.
\<close>

definition process_image :: "env \<Rightarrow> nat \<times> nat \<Rightarrow> string \<Rightarrow> exn + string \<times> saved_file" where
  "process_image e target_size image_data =
     (case Image_open e image_data of
        Inl err \<Rightarrow> Inl err
      | Inr opened \<Rightarrow>
     (case (if mode opened \<in> {''RGBA'', ''P''} then convert_RGB e opened else Inr opened) of
        Inl err \<Rightarrow> Inl err
      | Inr converted \<Rightarrow>
     (case thumbnail e target_size converted of
        Inl err \<Rightarrow> Inl err
      | Inr img \<Rightarrow>
     (let new_img = Image_new ''RGB'' target_size (0, 0, 0);
          x = (int (fst target_size) - int (width img)) div 2;
          y = (int (snd target_size) - int (height img)) div 2;
          pasted = paste new_img img (x, y);
          output_dir = ''/config/www/display_tools''
      in case makedirs_error e of
           Some err \<Rightarrow> Inl err
         | None \<Rightarrow>
        (let output_path = output_dir @ ''/'' @ ''cover.jpeg''
         in case save_error e of
              Some err \<Rightarrow> Inl err
            | None \<Rightarrow>
                Inr (output_path,
                     \<lparr>file_image = pasted, file_format = ''JPEG'', file_quality = 85\<rparr>))))))"

text \<open>
  Lines 130 to 134: a path that starts with \<^verbatim>\<open>/\<close> is put behind the address of the
  local server, anything else is taken as the address. \<^verbatim>\<open>startswith\<close> needs a
  \<^verbatim>\<open>str\<close>: \<^verbatim>\<open>bytes\<close> raise \<^verbatim>\<open>TypeError\<close> on the \<^verbatim>\<open>str\<close> argument, the other
  values have no such attribute.
\<close>

fun image_url :: "env \<Rightarrow> pyval \<Rightarrow> exn + string" where
  "image_url e (PStr s) =
     Inr (if take 1 s = ''/''
          then ''http://localhost:'' @ py_str e (server_port e) @ s
          else s)"
| "image_url e (PBytes s) = Inl TypeError"
| "image_url e v = Inl AttributeError"

text \<open>
  The outer \<^verbatim>\<open>try\<close> block of \<^verbatim>\<open>_download_and_process_cover\<close> (lines 117 to 183);
  \<open>sz\<close> is the parameter \<^verbatim>\<open>size\<close>.
\<close>

definition download_and_process_cover_body ::
  "env \<Rightarrow> hass \<Rightarrow> string \<Rightarrow> string \<Rightarrow> exn + bool \<times> hass" where
  "download_and_process_cover_body e h entity_id sz =
     (case states h entity_id of
        None \<Rightarrow> Inr (False, log_to h [(ERROR, Entity_not_found entity_id)])
      | Some st \<Rightarrow>
     (let entity_picture =
            (case map_of (attributes st) ''entity_picture'' of None \<Rightarrow> PNone | Some v \<Rightarrow> v)
      in if \<not> truthy entity_picture
         then Inr (False, log_to h [(ERROR, No_entity_picture entity_id)])
         else
     (case image_url e entity_picture of
        Inl err \<Rightarrow> Inl err
      | Inr url \<Rightarrow>
     (case map_of COVER_SIZES sz of
        None \<Rightarrow> Inl KeyError
      | Some target_size \<Rightarrow>
     (case session_get e url of
        Inl err \<Rightarrow> Inl err
      | Inr response \<Rightarrow>
          if status response \<noteq> 200
          then Inr (False, log_to h [(ERROR, Failed_to_download url (status response))])
          else
     (case read response of
        Inl err \<Rightarrow> Inl err
      | Inr image_data \<Rightarrow>
     (case process_image e target_size image_data of
        Inr (output_path, file) \<Rightarrow>
          Inr (True,
               log_to (h\<lparr>files := (files h)(output_path \<mapsto> file)\<rparr>)
                 [(INFO, Saved_cover output_path target_size)])
      | Inl err \<Rightarrow> Inr (False, log_to h [(ERROR, Error_processing_image err)]))))))))"

text \<open>\<^verbatim>\<open>_download_and_process_cover\<close> with its \<^verbatim>\<open>except Exception\<close>.\<close>

definition download_and_process_cover ::
  "env \<Rightarrow> hass \<Rightarrow> string \<Rightarrow> string \<Rightarrow> exn + bool \<times> hass" where
  "download_and_process_cover e h entity_id sz =
     try_except (download_and_process_cover_body e h entity_id sz)
       (\<lambda>err. Inr (False, log_to h [(ERROR, Error_in_download_and_process_cover err)]))"


section \<open>Notions of the specification\<close>

text \<open>A flat translations mapping with \<^verbatim>\<open>str\<close> keys, as a Python dictionary.\<close>

definition str_items :: "(string \<times> pyval) list \<Rightarrow> pydict" where
  "str_items kvs = map (\<lambda>(k, v). (PStr k, v)) kvs"

text \<open>
  The shape the grouping acts on, in the words of the specification: the key split on
  \<^verbatim>\<open>.\<close> has at least 2 segments and the first is \<^verbatim>\<open>component\<close>; the component name is
  the second segment and the inner key the last one.
\<close>

definition component_slot :: "string \<Rightarrow> (string \<times> string) option" where
  "component_slot key =
     (let segments = split_str CHR ''.'' key in
      if 2 \<le> length segments \<and> segments ! 0 = ''component''
      then Some (segments ! 1, segments ! (length segments - 1))
      else None)"

text \<open>The value the grouped result holds for a component and an inner key.\<close>

definition grouped_lookup :: "grouped \<Rightarrow> string \<Rightarrow> string \<Rightarrow> pyval option" where
  "grouped_lookup g c f = (case map_of g c of None \<Rightarrow> None | Some d \<Rightarrow> map_of d f)"

text \<open>The value written last to a slot by the entries of a mapping, in its order.\<close>

fun last_write ::
  "(string \<times> pyval) list \<Rightarrow> string \<times> string \<Rightarrow> pyval option \<Rightarrow> pyval option" where
  "last_write [] slot r = r"
| "last_write ((k, v) # kvs) slot r =
     last_write kvs slot (if component_slot k = Some slot then Some v else r)"

text \<open>
  The invariant the specification gives for normalised keys: a list whose elements are
  all strings, none of them empty after trimming.
\<close>

fun nonblank_str :: "pyval \<Rightarrow> bool" where
  "nonblank_str (PStr s) = (strip s \<noteq> [])"
| "nonblank_str v = False"

fun normalized_keys_invariant :: "pyval \<Rightarrow> bool" where
  "normalized_keys_invariant (PList xs) = list_all nonblank_str xs"
| "normalized_keys_invariant v = False"

text \<open>
  Splitting on commas, in the words of the specification: the pieces of a text are the
  texts between its commas, so joining them with commas gives the text back and no
  piece has a comma.
\<close>

fun join_commas :: "string list \<Rightarrow> string" where
  "join_commas [] = []"
| "join_commas [p] = p"
| "join_commas (p # q # ps) = p @ CHR '','' # join_commas (q # ps)"

definition comma_pieces :: "string \<Rightarrow> string list \<Rightarrow> bool" where
  "comma_pieces s ps \<longleftrightarrow>
     ps \<noteq> [] \<and> join_commas ps = s \<and> list_all (\<lambda>p. CHR '','' \<notin> set p) ps"

text \<open>
  Trimming: \<open>k\<close> is the piece \<open>p\<close> trimmed when \<open>p\<close> is \<open>k\<close> between two runs of
  whitespace and \<open>k\<close> neither starts nor ends with whitespace.
\<close>

definition trimmed_from :: "string \<Rightarrow> string \<Rightarrow> bool" where
  "trimmed_from k p \<longleftrightarrow>
     (\<exists>a \<in> set (prefixes p). \<exists>b \<in> set (suffixes p).
        p = a @ k @ b \<and> list_all isspace a \<and> list_all isspace b) \<and>
     (k = [] \<or> \<not> isspace (hd k) \<and> \<not> isspace (last k))"

text \<open>
  The keys of a list of pieces: every piece that is not blank gives one key, itself
  trimmed, in the order of the pieces; the blank pieces give none.
\<close>

fun trimmed_keys :: "string list \<Rightarrow> string list \<Rightarrow> bool" where
  "trimmed_keys [] ks = (ks = [])"
| "trimmed_keys (p # ps) ks =
     (if list_all isspace p then trimmed_keys ps ks
      else (case ks of
              [] \<Rightarrow> False
            | k # ks' \<Rightarrow> k \<noteq> [] \<and> trimmed_from k p \<and> trimmed_keys ps ks'))"



section \<open>An example host\<close>

text \<open>
  A concrete environment for the examples. \<open>example_json_loads\<close> answers as
  \<^verbatim>\<open>json.loads\<close> does on the texts of the examples: the array \<^verbatim>\<open>["x","y"]\<close> and the
  number \<^verbatim>\<open>5\<close> are parsed, a text of 100000 characters or more stands for an array
  nested too deep for the recursive parser, and the other texts used (\<^verbatim>\<open>a,b,c\<close> and the
  like) are not JSON.
\<close>

definition example_json_loads :: "string \<Rightarrow> exn + pyval" where
  "example_json_loads s =
     (if 100000 \<le> length s then Inl (OtherException ''RecursionError'')
      else if s = ''[\"x\",\"y\"]'' then Inr (PList [PStr ''x'', PStr ''y''])
      else if s = ''5'' then Inr (PInt 5)
      else Inl JSONDecodeError)"

definition example_json_dumps :: "strdict \<Rightarrow> exn + string" where
  "example_json_dumps d = Inr (''{'' @ concat (map (\<lambda>p. fst p @ '';'') d) @ ''}'')"

definition example_py_str :: "pyval \<Rightarrow> string" where
  "example_py_str v =
     (if v = PInt 8123 then ''8123'' else if v = PInt 4 then ''4'' else ''<object>'')"

definition example_exn_str :: "exn \<Rightarrow> string" where
  "example_exn_str err = ''error''"

definition example_translations :: "string \<Rightarrow> string \<Rightarrow> exn + pydict" where
  "example_translations language category =
     (if language = ''de'' \<and> category = ''entity_component''
      then Inr (str_items
                  [(''component.vacuum.entity_component._.state.cleaning'', PStr ''Reinigt''),
                   (''component.cover.entity_component._.state.open'', PStr ''Offen'')])
      else Inl (OtherException ''HomeAssistantError''))"

definition example_session_get :: "string \<Rightarrow> exn + http_response" where
  "example_session_get url =
     (if url = ''http://localhost:8123/api/cover''
      then Inr \<lparr>status = 200, read = Inr ''image''\<rparr>
      else if url = ''http://example.org/broken''
      then Inr \<lparr>status = 200, read = Inr ''garbage''\<rparr>
      else Inr \<lparr>status = 404, read = Inr []\<rparr>)"

definition white :: "int \<Rightarrow> int \<Rightarrow> colour" where
  "white i j = (255, 255, 255)"

definition example_Image_open :: "string \<Rightarrow> exn + image" where
  "example_Image_open data =
     (if data = ''image''
      then Inr \<lparr>mode = ''RGBA'', width = 1000, height = 1, rgb = white\<rparr>
      else Inl (OtherException ''UnidentifiedImageError''))"

definition example_convert_RGB :: "image \<Rightarrow> exn + image" where
  "example_convert_RGB im = Inr (im\<lparr>mode := ''RGB''\<rparr>)"

text \<open>
  A stand-in for \<^verbatim>\<open>Image.thumbnail\<close>: an image that fits the box is left alone, a larger
  one is scaled down to fit, keeping its proportions up to rounding and at least one
  pixel in each direction. The resampling is not modelled: the pixels keep their colour
  function.
\<close>

definition example_thumbnail :: "nat \<times> nat \<Rightarrow> image \<Rightarrow> exn + image" where
  "example_thumbnail box im =
     (if width im \<le> fst box \<and> height im \<le> snd box then Inr im
      else if width im * snd box \<le> fst box * height im
      then Inr (im\<lparr>width := max 1 (width im * snd box div height im), height := snd box\<rparr>)
      else Inr (im\<lparr>width := fst box, height := max 1 (height im * fst box div width im)\<rparr>))"

definition example_env :: env where
  "example_env =
     \<lparr>json_loads = example_json_loads,
      json_dumps = example_json_dumps,
      py_str = example_py_str,
      exn_str = example_exn_str,
      async_get_translations = example_translations,
      async_load_error = None,
      async_save_error = None,
      server_port = PInt 8123,
      session_get = example_session_get,
      Image_open = example_Image_open,
      convert_RGB = example_convert_RGB,
      thumbnail = example_thumbnail,
      makedirs_error = None,
      save_error = None\<rparr>"

definition example_states :: "string \<Rightarrow> entity_state option" where
  "example_states entity_id =
     (if entity_id = ''media_player.tv''
      then Some \<lparr>state = ''playing'', attributes = [(''entity_picture'', PStr ''/api/cover'')]\<rparr>
      else if entity_id = ''media_player.old''
      then Some \<lparr>state = ''playing'', attributes = [(''entity_picture'', PStr ''/api/gone'')]\<rparr>
      else if entity_id = ''media_player.web''
      then Some \<lparr>state = ''playing'',
                 attributes = [(''entity_picture'', PStr ''http://example.org/broken'')]\<rparr>
      else if entity_id = ''media_player.radio''
      then Some \<lparr>state = ''idle'', attributes = []\<rparr>
      else None)"

definition no_files :: "string \<Rightarrow> saved_file option" where
  "no_files path = None"

definition example_hass :: hass where
  "example_hass =
     \<lparr>states = example_states,
      store = Some [(''installed'', PBool True), (''language'', PStr ''en'')],
      files = no_files,
      logged = []\<rparr>"

section \<open>Properties of the translation filter\<close>

lemma key_eq_PStr: "key_eq v (PStr s) \<longleftrightarrow> v = PStr s"
  by (cases v) auto

lemma dict_get_PStr: "dict_get d (PStr s) = map_of d (PStr s)"
  by (induction d) (auto simp: key_eq_PStr simp del: key_eq.simps)

lemma dict_set_PStr: "dict_set (PStr s) v d = AList.update (PStr s) v d"
  by (induction d) (auto simp: key_eq_PStr simp del: key_eq.simps)

lemma filter_loop_strs:
  "filter_loop t (map PStr ks) acc =
     Inr (fold (\<lambda>k. AList.update k (case map_of t k of Some v \<Rightarrow> v | None \<Rightarrow> k))
            (map PStr ks) acc)"
  by (induction ks arbitrary: acc) (simp_all add: dict_get_PStr dict_set_PStr)

lemma map_of_fold_update:
  "map_of (fold (\<lambda>k. AList.update k (f k)) ks acc) k' =
     (if k' \<in> set ks then Some (f k') else map_of acc k')"
  by (induction ks arbitrary: acc) (auto simp: update_conv')

text \<open>
  C6. \<^verbatim>\<open>_filter_translations_by_keys\<close>: with \<^verbatim>\<open>None\<close> or an empty list of keys the
  source mapping is returned unchanged. With a non-empty list of string keys the call
  returns a mapping whose keys are exactly the requested ones, each mapped to its value
  in the source mapping when it is there and to the key's own text otherwise.
\<close>

theorem filter_translations_by_keys_spec:
  "filter_translations_by_keys translations PNone = Inr translations \<and>
   filter_translations_by_keys translations (PList []) = Inr translations \<and>
   (ks \<noteq> [] \<longrightarrow>
     (\<exists>filtered.
        filter_translations_by_keys translations (PList (map PStr ks)) = Inr filtered \<and>
        (\<forall>k. map_of filtered k =
           (if k \<in> PStr ` set ks
            then Some (case map_of translations k of Some v \<Rightarrow> v | None \<Rightarrow> k)
            else None))))"
  by (simp add: filter_translations_by_keys_def filter_loop_strs map_of_fold_update)

theorem filter_translations_by_keys_spec_witness:
  "[''state.on'', ''state.missing''] \<noteq> [] \<and>
   (\<exists>filtered.
      filter_translations_by_keys
        [(PStr ''state.off'', PStr ''Aus''), (PStr ''state.on'', PStr ''An'')]
        (PList (map PStr [''state.on'', ''state.missing''])) = Inr filtered \<and>
      map_of filtered (PStr ''state.on'') = Some (PStr ''An'') \<and>
      map_of filtered (PStr ''state.missing'') = Some (PStr ''state.missing'') \<and>
      map_of filtered (PStr ''state.off'') = None)"
proof -
  let ?t = "[(PStr ''state.off'', PStr ''Aus''), (PStr ''state.on'', PStr ''An'')]"
  let ?ks = "[''state.on'', ''state.missing'']"
  have ne: "?ks \<noteq> []" by simp
  from filter_translations_by_keys_spec [of ?t ?ks] ne
  obtain filtered where
    f: "filter_translations_by_keys ?t (PList (map PStr ?ks)) = Inr filtered" and
    m: "\<And>k. map_of filtered k =
           (if k \<in> PStr ` set ?ks
            then Some (case map_of ?t k of Some v \<Rightarrow> v | None \<Rightarrow> k)
            else None)"
    by blast
  have "map_of filtered (PStr ''state.on'') = Some (PStr ''An'')"
    by (simp add: m)
  moreover have "map_of filtered (PStr ''state.missing'') = Some (PStr ''state.missing'')"
    by (simp add: m)
  moreover have "map_of filtered (PStr ''state.off'') = None"
    by (simp add: m)
  ultimately show ?thesis using f ne by blast
qed

section \<open>Properties of the grouping\<close>

lemma split_str_nonempty: "split_str sep s \<noteq> []"
  by (induction s) (auto split: list.splits)

lemma group_entry_slot:
  "group_entry key val g =
     (case component_slot key of
        None \<Rightarrow> g
      | Some (c, f) \<Rightarrow>
          AList.update c (AList.update f val (case map_of g c of None \<Rightarrow> [] | Some d \<Rightarrow> d)) g)"
  using split_str_nonempty [of "CHR ''.''" key]
  by (auto simp: group_entry_def component_slot_def Let_def hd_conv_nth last_conv_nth)

lemma grouped_lookup_entry:
  "grouped_lookup (group_entry key val g) c f =
     (if component_slot key = Some (c, f) then Some val else grouped_lookup g c f)"
  by (auto simp: group_entry_slot grouped_lookup_def update_conv' split: option.splits)

lemma keys_group_entry:
  "fst ` set (group_entry key val g) =
     (case component_slot key of
        None \<Rightarrow> fst ` set g
      | Some (c, f) \<Rightarrow> insert c (fst ` set g))"
  by (auto simp: group_entry_slot dom_update split: option.splits)

lemma group_entry_other: "component_slot key = None \<Longrightarrow> group_entry key val g = g"
  by (simp add: group_entry_slot)

lemma group_loop_str_items:
  "group_loop (str_items kvs) g = Inr (fold (\<lambda>(k, v). group_entry k v) kvs g)"
  by (induction kvs arbitrary: g) (auto simp: str_items_def)

lemma grouped_lookup_fold:
  "grouped_lookup (fold (\<lambda>(k, v). group_entry k v) kvs g) c f =
     last_write kvs (c, f) (grouped_lookup g c f)"
  by (induction kvs arbitrary: g) (auto simp: grouped_lookup_entry)

lemma keys_fold_group_entry:
  "fst ` set (fold (\<lambda>(k, v). group_entry k v) kvs g) =
     fst ` set g \<union> {c. \<exists>(k, v) \<in> set kvs. \<exists>f. component_slot k = Some (c, f)}"
proof (induction kvs arbitrary: g)
  case Nil
  then show ?case by simp
next
  case (Cons kv kvs)
  obtain k w where kv: "kv = (k, w)" by (cases kv)
  show ?case
    unfolding kv by (cases "component_slot k") (auto simp: Cons.IH keys_group_entry)
qed

lemma fold_group_entry_matching:
  "fold (\<lambda>(k, v). group_entry k v) (filter (\<lambda>(k, v). component_slot k \<noteq> None) kvs) g =
   fold (\<lambda>(k, v). group_entry k v) kvs g"
proof (induction kvs arbitrary: g)
  case Nil
  then show ?case by simp
next
  case (Cons kv kvs)
  obtain k w where kv: "kv = (k, w)" by (cases kv)
  show ?case
  proof (cases "component_slot k")
    case None
    then show ?thesis unfolding kv by (simp add: Cons.IH group_entry_other del: not_None_eq)
  next
    case (Some slot)
    then show ?thesis unfolding kv by (simp add: Cons.IH del: not_None_eq)
  qed
qed

lemma grouped_lookup_Nil: "grouped_lookup [] c f = None"
  by (simp add: grouped_lookup_def)

lemma last_write_snoc:
  "last_write (kvs @ [(k, v)]) slot r =
     (if component_slot k = Some slot then Some v else last_write kvs slot r)"
  by (induction kvs arbitrary: r) auto

lemma last_write_Some_iff:
  "last_write kvs slot None = Some v \<longleftrightarrow>
     (\<exists>pre k post. kvs = pre @ (k, v) # post \<and> component_slot k = Some slot \<and>
        (\<forall>(k', v') \<in> set post. component_slot k' \<noteq> Some slot))"
proof (induction kvs rule: rev_induct)
  case Nil
  then show ?case by simp
next
  case (snoc kv kvs)
  obtain k w where kv: "kv = (k, w)" by (cases kv)
  show ?case
  proof (cases "component_slot k = Some slot")
    case True
    have "(\<exists>pre k' post. kvs @ [(k, w)] = pre @ (k', v) # post \<and>
              component_slot k' = Some slot \<and>
              (\<forall>(k', v') \<in> set post. component_slot k' \<noteq> Some slot)) \<longleftrightarrow> w = v"
      (is "?L \<longleftrightarrow> _")
    proof
      assume ?L
      then obtain pre k' post where e: "kvs @ [(k, w)] = pre @ (k', v) # post"
        and p: "\<forall>(k', v') \<in> set post. component_slot k' \<noteq> Some slot" by blast
      show "w = v"
      proof (cases post rule: rev_cases)
        case Nil
        with e show ?thesis by simp
      next
        case (snoc post' x)
        with e have "x = (k, w)" by simp
        with snoc p True show ?thesis by auto
      qed
    next
      assume "w = v"
      then have "kvs @ [(k, w)] = kvs @ (k, v) # []" by simp
      with True show ?L by fastforce
    qed
    with True kv show ?thesis by (simp add: last_write_snoc)
  next
    case False
    have "(\<exists>pre k' post. kvs @ [(k, w)] = pre @ (k', v) # post \<and>
              component_slot k' = Some slot \<and>
              (\<forall>(k', v') \<in> set post. component_slot k' \<noteq> Some slot)) \<longleftrightarrow>
          (\<exists>pre k' post. kvs = pre @ (k', v) # post \<and> component_slot k' = Some slot \<and>
              (\<forall>(k', v') \<in> set post. component_slot k' \<noteq> Some slot))"
      (is "?L \<longleftrightarrow> ?R")
    proof
      assume ?L
      then obtain pre k' post where e: "kvs @ [(k, w)] = pre @ (k', v) # post"
        and s: "component_slot k' = Some slot"
        and p: "\<forall>(k', v') \<in> set post. component_slot k' \<noteq> Some slot" by blast
      show ?R
      proof (cases post rule: rev_cases)
        case Nil
        with e s False show ?thesis by simp
      next
        case (snoc post' x)
        with e have "kvs = pre @ (k', v) # post'" by simp
        with s p snoc show ?thesis by auto
      qed
    next
      assume ?R
      then obtain pre k' post where e: "kvs = pre @ (k', v) # post"
        and s: "component_slot k' = Some slot"
        and p: "\<forall>(k', v') \<in> set post. component_slot k' \<noteq> Some slot" by blast
      from e have "kvs @ [(k, w)] = pre @ (k', v) # (post @ [(k, w)])" by simp
      moreover from p False
      have "\<forall>(k', v') \<in> set (post @ [(k, w)]). component_slot k' \<noteq> Some slot"
        by auto
      ultimately show ?L using s by blast
    qed
    with False kv snoc.IH show ?thesis by (simp add: last_write_snoc)
  qed
qed

text \<open>
  C1. The grouping loop of \<^verbatim>\<open>handle_get_translations_esphome\<close> on a flat mapping with
  string keys never fails, and its result \<open>g\<close> is described by the shape of the keys:
  \<open>g\<close> holds the value \<open>v\<close> under component \<open>c\<close> and inner key \<open>f\<close> exactly when the
  mapping has an entry with value \<open>v\<close> whose key splits into at least 2 segments with
  first segment \<^verbatim>\<open>component\<close>, second segment \<open>c\<close> and last segment \<open>f\<close>, and no later
  entry of the mapping has such a key (the later entry wins, whatever the middle
  segments are); the components of \<open>g\<close> are the second segments of the matching keys;
  the entries with other keys contribute nothing, since the result is that of the
  matching entries alone. The flat mapping is an argument and is not changed.
\<close>

theorem group_translations_spec:
  "\<exists>g. group_translations (str_items kvs) = Inr g \<and>
     (\<forall>c f v. grouped_lookup g c f = Some v \<longleftrightarrow>
        (\<exists>pre k post. kvs = pre @ (k, v) # post \<and> component_slot k = Some (c, f) \<and>
           (\<forall>(k', v') \<in> set post. component_slot k' \<noteq> Some (c, f)))) \<and>
     (\<forall>c. c \<in> fst ` set g \<longleftrightarrow> (\<exists>(k, v) \<in> set kvs. \<exists>f. component_slot k = Some (c, f))) \<and>
     group_translations (str_items (filter (\<lambda>(k, v). component_slot k \<noteq> None) kvs)) = Inr g"
proof -
  let ?g = "fold (\<lambda>(k, v). group_entry k v) kvs []"
  have "group_translations (str_items kvs) = Inr ?g"
    by (simp add: group_translations_def group_loop_str_items)
  moreover have "\<forall>c f v. grouped_lookup ?g c f = Some v \<longleftrightarrow>
        (\<exists>pre k post. kvs = pre @ (k, v) # post \<and> component_slot k = Some (c, f) \<and>
           (\<forall>(k', v') \<in> set post. component_slot k' \<noteq> Some (c, f)))"
    by (simp only: grouped_lookup_fold grouped_lookup_Nil last_write_Some_iff) simp
  moreover have "\<forall>c. c \<in> fst ` set ?g \<longleftrightarrow>
        (\<exists>(k, v) \<in> set kvs. \<exists>f. component_slot k = Some (c, f))"
    by (simp add: keys_fold_group_entry)
  moreover have
    "group_translations (str_items (filter (\<lambda>(k, v). component_slot k \<noteq> None) kvs)) = Inr ?g"
    by (simp add: group_translations_def group_loop_str_items fold_group_entry_matching
        del: not_None_eq)
  ultimately show ?thesis by blast
qed


theorem group_translations_spec_witness:
  "\<exists>g. group_translations (str_items
          [(''component.vacuum.entity_component._.state.cleaning'', PStr ''Cleaning''),
           (''state.idle'', PStr ''Idle''),
           (''component.vacuum.state.cleaning'', PStr ''Cleans'')]) = Inr g \<and>
        grouped_lookup g ''vacuum'' ''cleaning'' = Some (PStr ''Cleans'') \<and>
        ''vacuum'' \<in> fst ` set g \<and> ''state'' \<notin> fst ` set g"
proof -
  define k1 where "k1 = ''component.vacuum.entity_component._.state.cleaning''"
  define k2 where "k2 = ''state.idle''"
  define k3 where "k3 = ''component.vacuum.state.cleaning''"
  define kvs where "kvs = [(k1, PStr ''Cleaning''), (k2, PStr ''Idle''), (k3, PStr ''Cleans'')]"
  have s1: "component_slot k1 = Some (''vacuum'', ''cleaning'')"
    by (simp add: component_slot_def k1_def)
  have s2: "component_slot k2 = None"
    by (simp add: component_slot_def k2_def)
  have s3: "component_slot k3 = Some (''vacuum'', ''cleaning'')"
    by (simp add: component_slot_def k3_def)
  from group_translations_spec [of kvs]
  obtain g where h: "group_translations (str_items kvs) = Inr g \<and>
     (\<forall>c f v. grouped_lookup g c f = Some v \<longleftrightarrow>
        (\<exists>pre k post. kvs = pre @ (k, v) # post \<and> component_slot k = Some (c, f) \<and>
           (\<forall>(k', v') \<in> set post. component_slot k' \<noteq> Some (c, f)))) \<and>
     (\<forall>c. c \<in> fst ` set g \<longleftrightarrow> (\<exists>(k, v) \<in> set kvs. \<exists>f. component_slot k = Some (c, f))) \<and>
     group_translations (str_items (filter (\<lambda>(k, v). component_slot k \<noteq> None) kvs)) = Inr g"
    ..
  from h have g: "group_translations (str_items kvs) = Inr g"
    by (rule conjunct1)
  from h have l: "\<And>c f v. grouped_lookup g c f = Some v \<longleftrightarrow>
        (\<exists>pre k post. kvs = pre @ (k, v) # post \<and> component_slot k = Some (c, f) \<and>
           (\<forall>(k', v') \<in> set post. component_slot k' \<noteq> Some (c, f)))"
    by simp
  from h have c: "\<And>c. c \<in> fst ` set g \<longleftrightarrow>
        (\<exists>(k, v) \<in> set kvs. \<exists>f. component_slot k = Some (c, f))"
    by simp
  have "kvs = [(k1, PStr ''Cleaning''), (k2, PStr ''Idle'')] @ (k3, PStr ''Cleans'') # []"
    by (simp add: kvs_def)
  moreover have "\<forall>(k', v') \<in> set ([] :: (string \<times> pyval) list).
      component_slot k' \<noteq> Some (''vacuum'', ''cleaning'')"
    by simp
  ultimately have "\<exists>pre k post. kvs = pre @ (k, PStr ''Cleans'') # post \<and>
      component_slot k = Some (''vacuum'', ''cleaning'') \<and>
      (\<forall>(k', v') \<in> set post. component_slot k' \<noteq> Some (''vacuum'', ''cleaning''))"
    using s3 by blast
  then have a: "grouped_lookup g ''vacuum'' ''cleaning'' = Some (PStr ''Cleans'')"
    by (simp add: l)
  have "(k3, PStr ''Cleans'') \<in> set kvs"
    by (simp add: kvs_def)
  with s3 have "\<exists>(k, v) \<in> set kvs. \<exists>f. component_slot k = Some (''vacuum'', f)"
    by blast
  then have d: "''vacuum'' \<in> fst ` set g"
    by (simp add: c)
  have "\<not> (\<exists>(k, v) \<in> set kvs. \<exists>f. component_slot k = Some (''state'', f))"
    by (simp add: kvs_def s1 s2 s3)
  then have e: "''state'' \<notin> fst ` set g"
    by (simp add: c)
  have "\<exists>g. group_translations (str_items kvs) = Inr g \<and>
        grouped_lookup g ''vacuum'' ''cleaning'' = Some (PStr ''Cleans'') \<and>
        ''vacuum'' \<in> fst ` set g \<and> ''state'' \<notin> fst ` set g"
    using g a d e by (intro exI [of _ g] conjI)
  then show ?thesis
    by (simp only: kvs_def k1_def k2_def k3_def)
qed

section \<open>Properties of the key normaliser\<close>

lemma normalize_keys_list_other:
  "length xs \<noteq> 1 \<Longrightarrow> normalize_keys e (PList xs) = Inr (PList xs, [])"
proof (cases xs)
  case Nil
  then show ?thesis by (simp add: normalize_keys_def try_except_def)
next
  case (Cons x ys)
  assume "length xs \<noteq> 1"
  with Cons obtain y zs where "ys = y # zs" by (cases ys) auto
  with Cons show ?thesis by (simp add: normalize_keys_def try_except_def)
qed

lemma normalize_keys_str:
  "normalize_keys e (PStr s) =
     (case json_loads e s of
        Inr v \<Rightarrow> Inr (v, [])
      | Inl JSONDecodeError \<Rightarrow> Inr (PList (map PStr (comma_split s)), [])
      | Inl err \<Rightarrow> Inr (PNone, [(ERROR, Error_processing_keys err)]))"
  by (simp add: normalize_keys_def try_except_def json_or_split_def
      split: sum.splits exn.splits)

lemma normalize_keys_single_str:
  "normalize_keys e (PList [PStr s]) = normalize_keys e (PStr s)"
  by (simp add: normalize_keys_def)

text \<open>
  C5. The normaliser never raises: it always returns a value for \<^verbatim>\<open>keys\<close>. \<^verbatim>\<open>None\<close>
  gives \<^verbatim>\<open>None\<close>, the sentinel for no filter, and so does any input on which the body
  raises, with the exception logged. The caller treats the sentinel as no keys: it is
  falsy, the filter returns the whole mapping for it, and the count of requested keys
  is 0.
\<close>

theorem normalize_keys_never_raises:
  "(\<exists>keys entries. normalize_keys e keys_raw = Inr (keys, entries)) \<and>
   normalize_keys e PNone = Inr (PNone, []) \<and>
   (\<forall>err. keys_raw \<noteq> PNone \<and> normalize_keys_body e keys_raw = Inl err \<longrightarrow>
      normalize_keys e keys_raw = Inr (PNone, [(ERROR, Error_processing_keys err)])) \<and>
   \<not> truthy PNone \<and>
   filter_translations_by_keys translations PNone = Inr translations \<and>
   requested_keys_count PNone = Inr 0"
  by (cases "normalize_keys_body e keys_raw")
     (simp_all add: normalize_keys_def try_except_def filter_translations_by_keys_def
        requested_keys_count_def)

theorem normalize_keys_never_raises_witness:
  "PStr (replicate 100000 CHR ''['') \<noteq> PNone \<and>
   normalize_keys_body example_env (PStr (replicate 100000 CHR ''['')) =
     Inl (OtherException ''RecursionError'') \<and>
   normalize_keys example_env (PStr (replicate 100000 CHR ''['')) =
     Inr (PNone, [(ERROR, Error_processing_keys (OtherException ''RecursionError''))])"
proof -
  have b: "normalize_keys_body example_env (PStr (replicate 100000 CHR ''['')) =
     Inl (OtherException ''RecursionError'')"
    by (simp add: json_or_split_def example_env_def example_json_loads_def)
  have n: "PStr (replicate 100000 CHR ''['') \<noteq> PNone" by simp
  from normalize_keys_never_raises
         [of example_env "PStr (replicate 100000 CHR ''['')" "[]"] n b
  have "normalize_keys example_env (PStr (replicate 100000 CHR ''['')) =
     Inr (PNone, [(ERROR, Error_processing_keys (OtherException ''RecursionError''))])"
    by simp
  with n b show ?thesis by (simp only: simp_thms)
qed

lemma last_dropWhile: "dropWhile P xs \<noteq> [] \<Longrightarrow> last (dropWhile P xs) = last xs"
  by (induction xs) auto

lemma strip_ends:
  assumes "strip s \<noteq> []"
  shows "\<not> isspace (hd (strip s)) \<and> \<not> isspace (last (strip s))"
proof -
  let ?t = "dropWhile isspace s"
  let ?u = "dropWhile isspace (rev ?t)"
  from assms have u: "?u \<noteq> []" by (simp add: strip_def)
  have t: "?t \<noteq> []"
  proof
    assume "?t = []"
    then have "?u = []" by (simp only: rev.simps dropWhile.simps)
    with u show False by (rule notE)
  qed
  have "hd (strip s) = last ?u" using u by (simp add: strip_def hd_rev)
  also have "\<dots> = last (rev ?t)" using u by (rule last_dropWhile)
  also have "\<dots> = hd ?t" using t by (simp add: last_rev)
  finally have "\<not> isspace (hd (strip s))" using t by (simp add: hd_dropWhile)
  moreover have "last (strip s) = hd ?u" using u by (simp add: strip_def last_rev)
  then have "\<not> isspace (last (strip s))" using u by (simp add: hd_dropWhile)
  ultimately show ?thesis by simp
qed

lemma strip_fixed:
  assumes "k \<noteq> []" "\<not> isspace (hd k)" "\<not> isspace (last k)"
  shows "strip k = k"
proof -
  from assms have "dropWhile isspace k = k" by (cases k) auto
  moreover from assms have "dropWhile isspace (rev k) = rev k"
    by (cases "rev k") (auto simp: last_rev [symmetric] hd_rev)
  ultimately show ?thesis by (simp add: strip_def)
qed

lemma strip_strip: "strip (strip s) = strip s"
proof (cases "strip s = []")
  case True
  have "strip [] = []" by (simp add: strip_def)
  with True show ?thesis by (simp only:)
next
  case False
  with strip_ends [of s] show ?thesis by (simp add: strip_fixed)
qed

lemma comma_split_elements:
  "k \<in> set (comma_split s) \<Longrightarrow> k \<noteq> [] \<and> strip k = k"
  by (auto simp: comma_split_def strip_strip)

lemma comma_split_invariant: "normalized_keys_invariant (PList (map PStr (comma_split s)))"
  by (simp add: list_all_iff comma_split_elements)

lemma join_split_str: "join_commas (split_str CHR '','' s) = s"
proof (induction s)
  case Nil
  then show ?case by simp
next
  case (Cons c s)
  obtain p ps where sp: "split_str CHR '','' s = p # ps"
    using split_str_nonempty [of "CHR '',''" s] by (cases "split_str CHR '','' s") auto
  show ?case
  proof (cases "c = CHR '',''")
    case True
    with Cons sp show ?thesis by simp
  next
    case False
    with Cons sp show ?thesis by (cases ps) auto
  qed
qed

lemma split_str_no_sep: "list_all (\<lambda>p. sep \<notin> set p) (split_str sep s)"
  by (induction s) (auto split: list.splits)

lemma comma_pieces_split_str: "comma_pieces s (split_str CHR '','' s)"
  by (simp add: comma_pieces_def join_split_str split_str_no_sep split_str_nonempty)

lemma split_str_piece:
  "sep \<notin> set p \<Longrightarrow> split_str sep (p @ sep # rest) = p # split_str sep rest"
  by (induction p) auto

lemma split_str_last_piece: "sep \<notin> set p \<Longrightarrow> split_str sep p = [p]"
  by (induction p) auto

lemma split_str_join:
  "ps \<noteq> [] \<Longrightarrow> list_all (\<lambda>p. CHR '','' \<notin> set p) ps \<Longrightarrow>
   split_str CHR '','' (join_commas ps) = ps"
  by (induction ps rule: join_commas.induct)
     (simp_all add: split_str_piece split_str_last_piece)

lemma comma_pieces_iff: "comma_pieces s ps \<longleftrightarrow> ps = split_str CHR '','' s"
proof
  assume "comma_pieces s ps"
  then show "ps = split_str CHR '','' s"
    using split_str_join [of ps] by (auto simp: comma_pieces_def)
next
  assume "ps = split_str CHR '','' s"
  then show "comma_pieces s ps" by (simp add: comma_pieces_split_str)
qed

lemma strip_decompose:
  "\<exists>a b. p = a @ strip p @ b \<and> list_all isspace a \<and> list_all isspace b"
proof -
  let ?t = "dropWhile isspace p"
  let ?u = "dropWhile isspace (rev ?t)"
  let ?a = "takeWhile isspace p"
  let ?b = "rev (takeWhile isspace (rev ?t))"
  have t: "?t = rev ?u @ ?b"
    by (metis rev_append rev_rev_ident takeWhile_dropWhile_id)
  have "p = ?a @ ?t" by simp
  with t have "p = ?a @ rev ?u @ ?b" by simp
  then have "p = ?a @ strip p @ ?b" by (simp add: strip_def)
  moreover have "list_all isspace ?a"
    by (auto simp: list_all_iff dest: set_takeWhileD)
  moreover have "list_all isspace ?b"
    by (auto simp: list_all_iff dest: set_takeWhileD)
  ultimately show ?thesis by blast
qed

lemma strip_trimmed: "strip p = [] \<or> \<not> isspace (hd (strip p)) \<and> \<not> isspace (last (strip p))"
  using strip_ends [of p] by blast

lemma trimmed_from_iff:
  "trimmed_from k p \<longleftrightarrow>
     (\<exists>a b. p = a @ k @ b \<and> list_all isspace a \<and> list_all isspace b) \<and>
     (k = [] \<or> \<not> isspace (hd k) \<and> \<not> isspace (last k))"
proof -
  have "(\<exists>a \<in> set (prefixes p). \<exists>b \<in> set (suffixes p).
           p = a @ k @ b \<and> list_all isspace a \<and> list_all isspace b) \<longleftrightarrow>
        (\<exists>a b. p = a @ k @ b \<and> list_all isspace a \<and> list_all isspace b)"
    (is "?L \<longleftrightarrow> ?R")
  proof
    assume ?L then show ?R by blast
  next
    assume ?R
    then obtain a b where e: "p = a @ k @ b" and w: "list_all isspace a" "list_all isspace b"
      by blast
    from e have "prefix a p" by (simp add: prefix_def)
    moreover from e have "suffix b p" by (metis append.assoc suffix_def)
    ultimately have "a \<in> set (prefixes p)" and "b \<in> set (suffixes p)"
      by (simp_all add: in_set_prefixes in_set_suffixes)
    with e w show ?L by blast
  qed
  then show ?thesis by (simp add: trimmed_from_def)
qed

lemma trimmed_from_strip: "trimmed_from (strip p) p"
  using strip_decompose [of p] strip_trimmed [of p] by (simp add: trimmed_from_iff)

lemma strip_Nil_iff: "strip p = [] \<longleftrightarrow> list_all isspace p"
proof
  assume "strip p = []"
  with strip_decompose [of p] show "list_all isspace p" by auto
next
  assume a: "list_all isspace p"
  then have "dropWhile isspace p = []" by (induction p) simp_all
  then show "strip p = []" by (simp only: strip_def rev.simps dropWhile.simps)
qed

lemma trimmed_keys_comma_split:
  "trimmed_keys ps (map strip (filter (\<lambda>k. strip k \<noteq> []) ps))"
  by (induction ps) (auto simp: strip_Nil_iff trimmed_from_strip)

lemma comma_split_trimmed_keys: "trimmed_keys (split_str CHR '','' s) (comma_split s)"
  unfolding comma_split_def by (rule trimmed_keys_comma_split)

lemma normalize_keys_comma_path:
  assumes "json_loads e s = Inl JSONDecodeError"
  shows "\<exists>ps ks. normalize_keys e (PStr s) = Inr (PList (map PStr ks), []) \<and>
           normalize_keys e (PList [PStr s]) = Inr (PList (map PStr ks), []) \<and>
           comma_pieces s ps \<and> trimmed_keys ps ks \<and>
           normalized_keys_invariant (PList (map PStr ks))"
proof -
  have "normalize_keys e (PStr s) = Inr (PList (map PStr (comma_split s)), []) \<and>
        normalize_keys e (PList [PStr s]) = Inr (PList (map PStr (comma_split s)), []) \<and>
        comma_pieces s (split_str CHR '','' s) \<and>
        trimmed_keys (split_str CHR '','' s) (comma_split s) \<and>
        normalized_keys_invariant (PList (map PStr (comma_split s)))"
    using assms comma_split_invariant [of s]
    by (simp add: normalize_keys_single_str normalize_keys_str comma_pieces_split_str
        comma_split_trimmed_keys)
  then show ?thesis by (intro exI)
qed

text \<open>
  C2. Only a list of length exactly 1 gets the special treatment. A list of any other
  length is the result as it is, with no splitting of its elements. A one-element list
  whose element is a string that \<^verbatim>\<open>json.loads\<close> rejects is split on commas: the result
  is a list of strings, one for every piece of the text between commas that is not
  blank, in the order of the pieces, each the piece without the whitespace at its two
  ends; the blank and empty pieces give nothing.
\<close>

theorem normalize_keys_single_element_only:
  "(length xs \<noteq> 1 \<longrightarrow> normalize_keys e (PList xs) = Inr (PList xs, [])) \<and>
   (json_loads e s = Inl JSONDecodeError \<longrightarrow>
      (\<exists>ps ks. normalize_keys e (PList [PStr s]) = Inr (PList (map PStr ks), []) \<and>
               comma_pieces s ps \<and> trimmed_keys ps ks))"
proof (intro conjI impI)
  assume "length xs \<noteq> 1"
  then show "normalize_keys e (PList xs) = Inr (PList xs, [])"
    by (rule normalize_keys_list_other)
next
  assume "json_loads e s = Inl JSONDecodeError"
  from normalize_keys_comma_path [OF this]
  show "\<exists>ps ks. normalize_keys e (PList [PStr s]) = Inr (PList (map PStr ks), []) \<and>
               comma_pieces s ps \<and> trimmed_keys ps ks"
    by (elim exE conjE) (intro exI conjI)
qed

theorem normalize_keys_single_element_only_witness:
  "length [PStr ''a,b'', PStr ''c''] \<noteq> 1 \<and>
   normalize_keys example_env (PList [PStr ''a,b'', PStr ''c'']) =
     Inr (PList [PStr ''a,b'', PStr ''c''], []) \<and>
   json_loads example_env ('' a ,'' @ [CHR 0x09] @ '', b c ,'') = Inl JSONDecodeError \<and>
   normalize_keys example_env (PList [PStr ('' a ,'' @ [CHR 0x09] @ '', b c ,'')]) =
     Inr (PList [PStr ''a'', PStr ''b c''], []) \<and>
   comma_pieces ('' a ,'' @ [CHR 0x09] @ '', b c ,'') ['' a '', [CHR 0x09], '' b c '', []] \<and>
   trimmed_keys ['' a '', [CHR 0x09], '' b c '', []] [''a'', ''b c'']"
proof -
  define s where "s = '' a ,'' @ [CHR 0x09] @ '', b c ,''"
  have l: "length [PStr ''a,b'', PStr ''c''] \<noteq> 1" by simp
  have j: "json_loads example_env s = Inl JSONDecodeError"
    by (simp add: s_def example_env_def example_json_loads_def)
  have sp: "split_str CHR '','' s = ['' a '', [CHR 0x09], '' b c '', []]"
    by (simp add: s_def)
  have n: "normalize_keys example_env (PList [PStr s]) =
             Inr (PList [PStr ''a'', PStr ''b c''], [])"
    using j by (simp add: normalize_keys_single_str normalize_keys_str comma_split_def sp
        strip_def isspace_def)
  note t = normalize_keys_single_element_only
             [of "[PStr ''a,b'', PStr ''c'']" example_env s]
  have a: "normalize_keys example_env (PList [PStr ''a,b'', PStr ''c'']) =
     Inr (PList [PStr ''a,b'', PStr ''c''], [])"
    using t [THEN conjunct1, THEN mp, OF l] .
  from t [THEN conjunct2, THEN mp, OF j] obtain ps ks where
    k: "normalize_keys example_env (PList [PStr s]) = Inr (PList (map PStr ks), [])" and
    p: "comma_pieces s ps" and r: "trimmed_keys ps ks"
    by (elim exE conjE)
  from k n have "map PStr ks = map PStr [''a'', ''b c'']" by simp
  moreover have "inj PStr" by (simp add: inj_def)
  ultimately have ks: "ks = [''a'', ''b c'']" by (simp only: inj_map_eq_map)
  from p have ps: "ps = ['' a '', [CHR 0x09], '' b c '', []]"
    by (simp add: comma_pieces_iff sp)
  from p ps have p': "comma_pieces s ['' a '', [CHR 0x09], '' b c '', []]" by (simp only:)
  from r ps ks have r': "trimmed_keys ['' a '', [CHR 0x09], '' b c '', []] [''a'', ''b c'']"
    by (simp only:)
  from l a j n p' r' show ?thesis unfolding s_def by (intro conjI)
qed






text \<open>
  C4 fails on a text that is valid JSON without being an array. \<^verbatim>\<open>json.loads('5')\<close>
  is the number 5, and lines 316 and 330 take whatever \<^verbatim>\<open>json.loads\<close> returns as the
  keys: they are then the number 5, neither the elements of an array nor the comma split
  \<^verbatim>\<open>['5']\<close> of the text. The number is truthy and not iterable, so the filter raises
  \<^verbatim>\<open>TypeError\<close> and the call ends with the sensor in the state \<^verbatim>\<open>error\<close>.
\<close>

theorem normalize_keys_non_array_json:
  "json_loads example_env ''5'' = Inr (PInt 5) \<and>
   normalize_keys example_env (PStr ''5'') = Inr (PInt 5, []) \<and>
   normalize_keys example_env (PList [PStr ''5'']) = Inr (PInt 5, []) \<and>
   comma_split ''5'' = [''5''] \<and>
   filter_translations_by_keys [(PStr ''5'', PStr ''five'')] (PInt 5) = Inl TypeError \<and>
   filter_translations_by_keys [(PStr ''5'', PStr ''five'')] (PList [PStr ''5'']) =
     Inr [(PStr ''5'', PStr ''five'')] \<and>
   fst (esphome_try example_env ''de'' ''entity_component'' (PInt 5) example_hass) =
     Some TypeError"
proof -
  have j: "json_loads example_env ''5'' = Inr (PInt 5)"
    by (simp add: example_env_def example_json_loads_def)
  have a: "normalize_keys example_env (PStr ''5'') = Inr (PInt 5, [])"
    using j by (simp add: normalize_keys_str)
  have b: "normalize_keys example_env (PList [PStr ''5'']) = Inr (PInt 5, [])"
    using a by (simp add: normalize_keys_single_str)
  have c: "comma_split ''5'' = [''5'']"
    by (simp add: comma_split_def strip_def isspace_def)
  have d: "filter_translations_by_keys [(PStr ''5'', PStr ''five'')] (PInt 5) = Inl TypeError"
    by (simp add: filter_translations_by_keys_def)
  have f: "filter_translations_by_keys [(PStr ''5'', PStr ''five'')] (PList [PStr ''5'']) =
     Inr [(PStr ''5'', PStr ''five'')]"
    by (simp add: filter_translations_by_keys_def)
  have g: "fst (esphome_try example_env ''de'' ''entity_component'' (PInt 5) example_hass) =
     Some TypeError"
    by (simp add: esphome_try_def fetch_translations_for_category_def example_env_def
        example_translations_def filter_translations_by_keys_def)
  from j a b c d f g show ?thesis by (intro conjI)
qed

section \<open>Properties of the media cover\<close>





lemma download_body_cases:
  "download_and_process_cover_body e h entity_id sz =
     (case states h entity_id of
        None \<Rightarrow> Inr (False, log_to h [(ERROR, Entity_not_found entity_id)])
      | Some st \<Rightarrow>
       (case map_of (attributes st) ''entity_picture'' of
          None \<Rightarrow> Inr (False, log_to h [(ERROR, No_entity_picture entity_id)])
        | Some entity_picture \<Rightarrow>
            if \<not> truthy entity_picture
            then Inr (False, log_to h [(ERROR, No_entity_picture entity_id)])
            else
       (case image_url e entity_picture of
          Inl err \<Rightarrow> Inl err
        | Inr url \<Rightarrow>
       (case map_of COVER_SIZES sz of
          None \<Rightarrow> Inl KeyError
        | Some target_size \<Rightarrow>
       (case session_get e url of
          Inl err \<Rightarrow> Inl err
        | Inr response \<Rightarrow>
            if status response \<noteq> 200
            then Inr (False, log_to h [(ERROR, Failed_to_download url (status response))])
            else
       (case read response of
          Inl err \<Rightarrow> Inl err
        | Inr image_data \<Rightarrow>
       (case process_image e target_size image_data of
          Inr (output_path, written) \<Rightarrow>
            Inr (True,
                 log_to (h\<lparr>files := (files h)(output_path \<mapsto> written)\<rparr>)
                   [(INFO, Saved_cover output_path target_size)])
        | Inl err \<Rightarrow> Inr (False, log_to h [(ERROR, Error_processing_image err)]))))))))"
  by (simp add: download_and_process_cover_body_def Let_def split: option.splits)

lemma process_image_Inr_iff:
  "(\<exists>path written. process_image e box image_data = Inr (path, written)) \<longleftrightarrow>
     (\<exists>opened converted img.
        Image_open e image_data = Inr opened \<and>
        (if mode opened \<in> {''RGBA'', ''P''} then convert_RGB e opened else Inr opened) =
          Inr converted \<and>
        thumbnail e box converted = Inr img \<and>
        makedirs_error e = None \<and> save_error e = None)"
  by (auto simp: process_image_def Let_def split: sum.splits option.splits if_splits)

lemma download_total:
  "\<exists>success h'. download_and_process_cover e h entity_id sz = Inr (success, h') \<and>
     (success \<longrightarrow>
        (\<exists>path written target_size.
           h' = log_to (h\<lparr>files := (files h)(path \<mapsto> written)\<rparr>)
                  [(INFO, Saved_cover path target_size)])) \<and>
     (\<not> success \<longrightarrow> (\<exists>m. h' = log_to h [(ERROR, m)]))"
  by (auto simp: download_and_process_cover_def try_except_def download_body_cases
      split: option.splits sum.splits prod.splits)

lemma download_not_found:
  "states h entity_id = None \<Longrightarrow>
   download_and_process_cover e h entity_id sz =
     Inr (False, log_to h [(ERROR, Entity_not_found entity_id)])"
  by (simp add: download_and_process_cover_def try_except_def download_body_cases)

lemma download_no_picture:
  "states h entity_id = Some st \<Longrightarrow> map_of (attributes st) ''entity_picture'' = None \<Longrightarrow>
   download_and_process_cover e h entity_id sz =
     Inr (False, log_to h [(ERROR, No_entity_picture entity_id)])"
  by (simp add: download_and_process_cover_def try_except_def download_body_cases)

lemma download_bad_picture:
  assumes "states h entity_id = Some st"
    and "map_of (attributes st) ''entity_picture'' = Some entity_picture"
    and "\<not> (\<exists>s. entity_picture = PStr s \<and> s \<noteq> [])"
  shows "\<exists>m. download_and_process_cover e h entity_id sz = Inr (False, log_to h [(ERROR, m)])"
  using assms
  by (cases entity_picture)
     (auto simp: download_and_process_cover_def try_except_def download_body_cases)

lemma download_bad_size:
  assumes "states h entity_id = Some st"
    and "map_of (attributes st) ''entity_picture'' = Some (PStr s)" and "s \<noteq> []"
    and "map_of COVER_SIZES sz = None"
  shows "download_and_process_cover e h entity_id sz =
           Inr (False, log_to h [(ERROR, Error_in_download_and_process_cover KeyError)])"
  using assms
  by (simp add: download_and_process_cover_def try_except_def download_body_cases)

lemma download_not_fetched:
  assumes "states h entity_id = Some st"
    and "map_of (attributes st) ''entity_picture'' = Some (PStr s)" and "s \<noteq> []"
    and "map_of COVER_SIZES sz = Some target_size"
    and "session_get e (if take 1 s = ''/''
                        then ''http://localhost:'' @ py_str e (server_port e) @ s
                        else s) = Inl err"
  shows "download_and_process_cover e h entity_id sz =
           Inr (False, log_to h [(ERROR, Error_in_download_and_process_cover err)])"
  using assms
  by (simp add: download_and_process_cover_def try_except_def download_body_cases)

lemma download_fetched:
  assumes "states h entity_id = Some st"
    and "map_of (attributes st) ''entity_picture'' = Some (PStr s)" and "s \<noteq> []"
    and "map_of COVER_SIZES sz = Some target_size"
    and "session_get e (if take 1 s = ''/''
                        then ''http://localhost:'' @ py_str e (server_port e) @ s
                        else s) = Inr response"
  shows "download_and_process_cover e h entity_id sz =
     (if status response \<noteq> 200
      then Inr (False, log_to h
             [(ERROR, Failed_to_download
                        (if take 1 s = ''/''
                         then ''http://localhost:'' @ py_str e (server_port e) @ s
                         else s)
                        (status response))])
      else case read response of
             Inl err \<Rightarrow> Inr (False, log_to h [(ERROR, Error_in_download_and_process_cover err)])
           | Inr image_data \<Rightarrow>
              (case process_image e target_size image_data of
                 Inr (output_path, written) \<Rightarrow>
                   Inr (True,
                        log_to (h\<lparr>files := (files h)(output_path \<mapsto> written)\<rparr>)
                          [(INFO, Saved_cover output_path target_size)])
               | Inl err \<Rightarrow> Inr (False, log_to h [(ERROR, Error_processing_image err)])))"
  using assms
  by (simp add: download_and_process_cover_def try_except_def download_body_cases
      split: sum.splits)

lemma process_image_error:
  assumes "Image_open e image_data = Inl err \<or>
         (\<exists>opened. Image_open e image_data = Inr opened \<and>
            ((if mode opened \<in> {''RGBA'', ''P''} then convert_RGB e opened else Inr opened) =
               Inl err \<or>
             (\<exists>converted.
                (if mode opened \<in> {''RGBA'', ''P''} then convert_RGB e opened
                 else Inr opened) = Inr converted \<and>
                thumbnail e target_size converted = Inl err)))"
  shows "process_image e target_size image_data = Inl err"
  using assms by (auto simp: process_image_def)

lemma download_True_only:
  assumes "download_and_process_cover e h entity_id sz = Inr (True, h')"
  shows "\<exists>st s target_size response image_data path written.
           states h entity_id = Some st \<and>
           map_of (attributes st) ''entity_picture'' = Some (PStr s) \<and> s \<noteq> [] \<and>
           map_of COVER_SIZES sz = Some target_size \<and>
           session_get e (if take 1 s = ''/''
                          then ''http://localhost:'' @ py_str e (server_port e) @ s
                          else s) = Inr response \<and>
           status response = 200 \<and> read response = Inr image_data \<and>
           process_image e target_size image_data = Inr (path, written)"
proof (cases "states h entity_id")
  case None
  with assms show ?thesis by (simp add: download_not_found)
next
  case (Some st)
  show ?thesis
  proof (cases "map_of (attributes st) ''entity_picture''")
    case None
    with assms Some show ?thesis by (simp add: download_no_picture)
  next
    case pic: (Some entity_picture)
    show ?thesis
    proof (cases "\<exists>s. entity_picture = PStr s \<and> s \<noteq> []")
      case False
      from download_bad_picture [OF Some pic False, of e sz] assms show ?thesis by auto
    next
      case True
      then obtain s where s: "entity_picture = PStr s" "s \<noteq> []" by blast
      show ?thesis
      proof (cases "map_of COVER_SIZES sz")
        case None
        from Some pic s None have "download_and_process_cover e h entity_id sz =
           Inr (False, log_to h [(ERROR, Error_in_download_and_process_cover KeyError)])"
          by (simp add: download_bad_size)
        with assms show ?thesis by simp
      next
        case sz: (Some target_size)
        let ?url = "if take 1 s = ''/''
                    then ''http://localhost:'' @ py_str e (server_port e) @ s else s"
        show ?thesis
        proof (cases "session_get e ?url")
          case (Inl err)
          with Some pic s sz have "download_and_process_cover e h entity_id sz =
             Inr (False, log_to h [(ERROR, Error_in_download_and_process_cover err)])"
            by (simp add: download_not_fetched)
          with assms show ?thesis by simp
        next
          case (Inr response)
          from Some pic s sz Inr
          have f: "download_and_process_cover e h entity_id sz =
            (if status response \<noteq> 200
             then Inr (False, log_to h [(ERROR, Failed_to_download ?url (status response))])
             else case read response of
               Inl err \<Rightarrow>
                 Inr (False, log_to h [(ERROR, Error_in_download_and_process_cover err)])
             | Inr image_data \<Rightarrow>
                (case process_image e target_size image_data of
                   Inr (output_path, written) \<Rightarrow>
                     Inr (True,
                          log_to (h\<lparr>files := (files h)(output_path \<mapsto> written)\<rparr>)
                            [(INFO, Saved_cover output_path target_size)])
                 | Inl err \<Rightarrow> Inr (False, log_to h [(ERROR, Error_processing_image err)])))"
            by (simp add: download_fetched)
          from assms f have st: "status response = 200"
            by (simp split: if_splits)
          from assms f st obtain image_data where rd: "read response = Inr image_data"
            by (cases "read response") simp_all
          from assms f st rd obtain path written where
            "process_image e target_size image_data = Inr (path, written)"
            by (cases "process_image e target_size image_data") auto
          with Some pic s sz Inr st rd show ?thesis by blast
        qed
      qed
    qed
  qed
qed

text \<open>
  C7. \<^verbatim>\<open>_download_and_process_cover\<close> always returns a truth value: no exception leaves
  it. It returns \<^verbatim>\<open>True\<close> exactly when the entity is found, its \<^verbatim>\<open>entity_picture\<close> is a
  non-empty string, the size is a preset, the download answers 200 and its body is read,
  and the image is decoded, converted, resized and saved without an exception; the host
  then has the file and one log entry at level INFO. In every other case it returns
  \<^verbatim>\<open>False\<close>, the host is unchanged but for one log entry at level ERROR, and the four
  named failures log their own message: entity not found, no \<^verbatim>\<open>entity_picture\<close>, a
  status other than 200, an exception while the image is processed.
\<close>

theorem download_and_process_cover_returns_bool:
  "\<exists>success h'.
     download_and_process_cover e h entity_id sz = Inr (success, h') \<and>
     (success \<longleftrightarrow>
        (\<exists>st s target_size response image_data opened converted img.
           states h entity_id = Some st \<and>
           map_of (attributes st) ''entity_picture'' = Some (PStr s) \<and> s \<noteq> [] \<and>
           map_of COVER_SIZES sz = Some target_size \<and>
           session_get e (if take 1 s = ''/''
                          then ''http://localhost:'' @ py_str e (server_port e) @ s
                          else s) = Inr response \<and>
           status response = 200 \<and> read response = Inr image_data \<and>
           Image_open e image_data = Inr opened \<and>
           (if mode opened \<in> {''RGBA'', ''P''} then convert_RGB e opened else Inr opened) =
             Inr converted \<and>
           thumbnail e target_size converted = Inr img \<and>
           makedirs_error e = None \<and> save_error e = None)) \<and>
     (success \<longrightarrow>
        (\<exists>path written target_size.
           h' = log_to (h\<lparr>files := (files h)(path \<mapsto> written)\<rparr>)
                  [(INFO, Saved_cover path target_size)])) \<and>
     (\<not> success \<longrightarrow> (\<exists>m. h' = log_to h [(ERROR, m)])) \<and>
     (states h entity_id = None \<longrightarrow>
        \<not> success \<and> h' = log_to h [(ERROR, Entity_not_found entity_id)]) \<and>
     (\<forall>st. states h entity_id = Some st \<and>
           map_of (attributes st) ''entity_picture'' = None \<longrightarrow>
        \<not> success \<and> h' = log_to h [(ERROR, No_entity_picture entity_id)]) \<and>
     (\<forall>st s target_size response.
        states h entity_id = Some st \<and>
        map_of (attributes st) ''entity_picture'' = Some (PStr s) \<and> s \<noteq> [] \<and>
        map_of COVER_SIZES sz = Some target_size \<and>
        session_get e (if take 1 s = ''/''
                       then ''http://localhost:'' @ py_str e (server_port e) @ s
                       else s) = Inr response \<and>
        status response \<noteq> 200 \<longrightarrow>
        \<not> success \<and>
        h' = log_to h
               [(ERROR, Failed_to_download
                          (if take 1 s = ''/''
                           then ''http://localhost:'' @ py_str e (server_port e) @ s
                           else s)
                          (status response))]) \<and>
     (\<forall>st s target_size response image_data err.
        states h entity_id = Some st \<and>
        map_of (attributes st) ''entity_picture'' = Some (PStr s) \<and> s \<noteq> [] \<and>
        map_of COVER_SIZES sz = Some target_size \<and>
        session_get e (if take 1 s = ''/''
                       then ''http://localhost:'' @ py_str e (server_port e) @ s
                       else s) = Inr response \<and>
        status response = 200 \<and> read response = Inr image_data \<and>
        (Image_open e image_data = Inl err \<or>
         (\<exists>opened. Image_open e image_data = Inr opened \<and>
            ((if mode opened \<in> {''RGBA'', ''P''} then convert_RGB e opened else Inr opened) =
               Inl err \<or>
             (\<exists>converted.
                (if mode opened \<in> {''RGBA'', ''P''} then convert_RGB e opened
                 else Inr opened) = Inr converted \<and>
                thumbnail e target_size converted = Inl err)))) \<longrightarrow>
        \<not> success \<and> h' = log_to h [(ERROR, Error_processing_image err)])"
proof -
  let ?dl = "download_and_process_cover e h entity_id sz"
  from download_total [of e h entity_id sz] obtain success h' where
    r: "?dl = Inr (success, h')" and
    ok: "success \<longrightarrow>
        (\<exists>path written target_size.
           h' = log_to (h\<lparr>files := (files h)(path \<mapsto> written)\<rparr>)
                  [(INFO, Saved_cover path target_size)])" and
    bad: "\<not> success \<longrightarrow> (\<exists>m. h' = log_to h [(ERROR, m)])"
    by (elim exE conjE)
  have iff: "success \<longleftrightarrow>
        (\<exists>st s target_size response image_data opened converted img.
           states h entity_id = Some st \<and>
           map_of (attributes st) ''entity_picture'' = Some (PStr s) \<and> s \<noteq> [] \<and>
           map_of COVER_SIZES sz = Some target_size \<and>
           session_get e (if take 1 s = ''/''
                          then ''http://localhost:'' @ py_str e (server_port e) @ s
                          else s) = Inr response \<and>
           status response = 200 \<and> read response = Inr image_data \<and>
           Image_open e image_data = Inr opened \<and>
           (if mode opened \<in> {''RGBA'', ''P''} then convert_RGB e opened else Inr opened) =
             Inr converted \<and>
           thumbnail e target_size converted = Inr img \<and>
           makedirs_error e = None \<and> save_error e = None)"
    (is "_ \<longleftrightarrow> ?R")
  proof
    assume success
    with r have "?dl = Inr (True, h')" by simp
    from download_True_only [OF this]
    obtain st s target_size response image_data path written where
      c: "states h entity_id = Some st"
         "map_of (attributes st) ''entity_picture'' = Some (PStr s)" "s \<noteq> []"
         "map_of COVER_SIZES sz = Some target_size"
         "session_get e (if take 1 s = ''/''
                          then ''http://localhost:'' @ py_str e (server_port e) @ s
                          else s) = Inr response"
         "status response = 200" "read response = Inr image_data" and
      p: "process_image e target_size image_data = Inr (path, written)"
      by (elim exE conjE)
    from p have "\<exists>path written. process_image e target_size image_data = Inr (path, written)"
      by (intro exI)
    then obtain opened converted img where
      "Image_open e image_data = Inr opened"
      "(if mode opened \<in> {''RGBA'', ''P''} then convert_RGB e opened else Inr opened) =
          Inr converted"
      "thumbnail e target_size converted = Inr img"
      "makedirs_error e = None" "save_error e = None"
      unfolding process_image_Inr_iff by (elim exE conjE)
    with c show ?R by (intro exI conjI)
  next
    assume ?R
    then obtain st s target_size response image_data opened converted img where
      c: "states h entity_id = Some st"
         "map_of (attributes st) ''entity_picture'' = Some (PStr s)" "s \<noteq> []"
         "map_of COVER_SIZES sz = Some target_size"
         "session_get e (if take 1 s = ''/''
                          then ''http://localhost:'' @ py_str e (server_port e) @ s
                          else s) = Inr response" and
      d: "status response = 200" "read response = Inr image_data" and
      i: "Image_open e image_data = Inr opened"
      "(if mode opened \<in> {''RGBA'', ''P''} then convert_RGB e opened else Inr opened) =
          Inr converted"
      "thumbnail e target_size converted = Inr img"
      "makedirs_error e = None" "save_error e = None"
      by (elim exE conjE)
    from i have "\<exists>path written. process_image e target_size image_data = Inr (path, written)"
      unfolding process_image_Inr_iff by (intro exI conjI)
    then obtain path written where
      "process_image e target_size image_data = Inr (path, written)" by (elim exE)
    with d download_fetched [OF c]
    have "?dl = Inr (True, log_to (h\<lparr>files := (files h)(path \<mapsto> written)\<rparr>)
                          [(INFO, Saved_cover path target_size)])"
      by simp
    with r show success by simp
  qed
  have nf: "states h entity_id = None \<longrightarrow>
        \<not> success \<and> h' = log_to h [(ERROR, Entity_not_found entity_id)]"
    using r by (auto simp: download_not_found)
  have np: "\<forall>st. states h entity_id = Some st \<and>
           map_of (attributes st) ''entity_picture'' = None \<longrightarrow>
        \<not> success \<and> h' = log_to h [(ERROR, No_entity_picture entity_id)]"
    using r by (auto simp: download_no_picture)
  have n2: "\<forall>st s target_size response.
        states h entity_id = Some st \<and>
        map_of (attributes st) ''entity_picture'' = Some (PStr s) \<and> s \<noteq> [] \<and>
        map_of COVER_SIZES sz = Some target_size \<and>
        session_get e (if take 1 s = ''/''
                       then ''http://localhost:'' @ py_str e (server_port e) @ s
                       else s) = Inr response \<and>
        status response \<noteq> 200 \<longrightarrow>
        \<not> success \<and>
        h' = log_to h
               [(ERROR, Failed_to_download
                          (if take 1 s = ''/''
                           then ''http://localhost:'' @ py_str e (server_port e) @ s
                           else s)
                          (status response))]"
  proof (intro allI impI)
    fix st s target_size response
    assume a: "states h entity_id = Some st \<and>
        map_of (attributes st) ''entity_picture'' = Some (PStr s) \<and> s \<noteq> [] \<and>
        map_of COVER_SIZES sz = Some target_size \<and>
        session_get e (if take 1 s = ''/''
                       then ''http://localhost:'' @ py_str e (server_port e) @ s
                       else s) = Inr response \<and>
        status response \<noteq> 200"
    then have c: "states h entity_id = Some st"
         "map_of (attributes st) ''entity_picture'' = Some (PStr s)" "s \<noteq> []"
         "map_of COVER_SIZES sz = Some target_size"
         "session_get e (if take 1 s = ''/''
                          then ''http://localhost:'' @ py_str e (server_port e) @ s
                          else s) = Inr response"
      and d: "status response \<noteq> 200"
      by simp_all
    from d download_fetched [OF c] r
    show "\<not> success \<and>
        h' = log_to h
               [(ERROR, Failed_to_download
                          (if take 1 s = ''/''
                           then ''http://localhost:'' @ py_str e (server_port e) @ s
                           else s)
                          (status response))]"
      by simp
  qed
  have ie: "\<forall>st s target_size response image_data err.
        states h entity_id = Some st \<and>
        map_of (attributes st) ''entity_picture'' = Some (PStr s) \<and> s \<noteq> [] \<and>
        map_of COVER_SIZES sz = Some target_size \<and>
        session_get e (if take 1 s = ''/''
                       then ''http://localhost:'' @ py_str e (server_port e) @ s
                       else s) = Inr response \<and>
        status response = 200 \<and> read response = Inr image_data \<and>
        (Image_open e image_data = Inl err \<or>
         (\<exists>opened. Image_open e image_data = Inr opened \<and>
            ((if mode opened \<in> {''RGBA'', ''P''} then convert_RGB e opened else Inr opened) =
               Inl err \<or>
             (\<exists>converted.
                (if mode opened \<in> {''RGBA'', ''P''} then convert_RGB e opened
                 else Inr opened) = Inr converted \<and>
                thumbnail e target_size converted = Inl err)))) \<longrightarrow>
        \<not> success \<and> h' = log_to h [(ERROR, Error_processing_image err)]"
  proof (intro allI impI)
    fix st s target_size response image_data err
    assume a: "states h entity_id = Some st \<and>
        map_of (attributes st) ''entity_picture'' = Some (PStr s) \<and> s \<noteq> [] \<and>
        map_of COVER_SIZES sz = Some target_size \<and>
        session_get e (if take 1 s = ''/''
                       then ''http://localhost:'' @ py_str e (server_port e) @ s
                       else s) = Inr response \<and>
        status response = 200 \<and> read response = Inr image_data \<and>
        (Image_open e image_data = Inl err \<or>
         (\<exists>opened. Image_open e image_data = Inr opened \<and>
            ((if mode opened \<in> {''RGBA'', ''P''} then convert_RGB e opened else Inr opened) =
               Inl err \<or>
             (\<exists>converted.
                (if mode opened \<in> {''RGBA'', ''P''} then convert_RGB e opened
                 else Inr opened) = Inr converted \<and>
                thumbnail e target_size converted = Inl err))))"
    then have c: "states h entity_id = Some st"
         "map_of (attributes st) ''entity_picture'' = Some (PStr s)" "s \<noteq> []"
         "map_of COVER_SIZES sz = Some target_size"
         "session_get e (if take 1 s = ''/''
                          then ''http://localhost:'' @ py_str e (server_port e) @ s
                          else s) = Inr response"
      and d: "status response = 200" "read response = Inr image_data"
      and f: "Image_open e image_data = Inl err \<or>
         (\<exists>opened. Image_open e image_data = Inr opened \<and>
            ((if mode opened \<in> {''RGBA'', ''P''} then convert_RGB e opened else Inr opened) =
               Inl err \<or>
             (\<exists>converted.
                (if mode opened \<in> {''RGBA'', ''P''} then convert_RGB e opened
                 else Inr opened) = Inr converted \<and>
                thumbnail e target_size converted = Inl err)))"
      by simp_all
    from f have "process_image e target_size image_data = Inl err"
      by (rule process_image_error)
    with d download_fetched [OF c] r
    show "\<not> success \<and> h' = log_to h [(ERROR, Error_processing_image err)]"
      by simp
  qed
  from r iff ok bad nf np n2 ie show ?thesis
    by (intro exI [of _ success] exI [of _ h'] conjI)
qed

theorem download_and_process_cover_returns_bool_witness:
  "download_and_process_cover example_env example_hass ''media_player.none'' ''small'' =
     Inr (False, log_to example_hass [(ERROR, Entity_not_found ''media_player.none'')]) \<and>
   download_and_process_cover example_env example_hass ''media_player.radio'' ''small'' =
     Inr (False, log_to example_hass [(ERROR, No_entity_picture ''media_player.radio'')]) \<and>
   download_and_process_cover example_env example_hass ''media_player.old'' ''small'' =
     Inr (False,
          log_to example_hass
            [(ERROR, Failed_to_download ''http://localhost:8123/api/gone'' 404)]) \<and>
   download_and_process_cover example_env example_hass ''media_player.web'' ''small'' =
     Inr (False,
          log_to example_hass
            [(ERROR, Error_processing_image (OtherException ''UnidentifiedImageError''))]) \<and>
   (\<exists>h'. download_and_process_cover example_env example_hass ''media_player.tv'' ''small'' =
           Inr (True, h'))"
proof -
  have a: "download_and_process_cover example_env example_hass ''media_player.none'' ''small'' =
     Inr (False, log_to example_hass [(ERROR, Entity_not_found ''media_player.none'')])"
  proof -
    from download_and_process_cover_returns_bool
           [of example_env example_hass "''media_player.none''" "''small''"]
    obtain success h' where
      r: "download_and_process_cover example_env example_hass ''media_player.none'' ''small'' =
            Inr (success, h')" and
      n: "states example_hass ''media_player.none'' = None \<longrightarrow>
            \<not> success \<and> h' = log_to example_hass [(ERROR, Entity_not_found ''media_player.none'')]"
      by (elim exE conjE)
    have "states example_hass ''media_player.none'' = None"
      by (simp add: example_hass_def example_states_def)
    with n r show ?thesis by simp
  qed
  have b: "download_and_process_cover example_env example_hass ''media_player.radio'' ''small'' =
     Inr (False, log_to example_hass [(ERROR, No_entity_picture ''media_player.radio'')])"
  proof -
    from download_and_process_cover_returns_bool
           [of example_env example_hass "''media_player.radio''" "''small''"]
    obtain success h' where
      r: "download_and_process_cover example_env example_hass ''media_player.radio'' ''small'' =
            Inr (success, h')" and
      n: "\<forall>st. states example_hass ''media_player.radio'' = Some st \<and>
            map_of (attributes st) ''entity_picture'' = None \<longrightarrow>
            \<not> success \<and>
            h' = log_to example_hass [(ERROR, No_entity_picture ''media_player.radio'')]"
      by (elim exE conjE)
    have "states example_hass ''media_player.radio'' = Some \<lparr>state = ''idle'', attributes = []\<rparr> \<and>
          map_of (attributes \<lparr>state = ''idle'', attributes = []\<rparr>) ''entity_picture'' = None"
      by (simp add: example_hass_def example_states_def)
    from n [rule_format, OF this] r show ?thesis by simp
  qed
  have c: "download_and_process_cover example_env example_hass ''media_player.old'' ''small'' =
     Inr (False,
          log_to example_hass
            [(ERROR, Failed_to_download ''http://localhost:8123/api/gone'' 404)])"
  proof -
    let ?st = "\<lparr>state = ''playing'', attributes = [(''entity_picture'', PStr ''/api/gone'')]\<rparr>"
    let ?resp = "\<lparr>status = 404, read = Inr []\<rparr>"
    from download_and_process_cover_returns_bool
           [of example_env example_hass "''media_player.old''" "''small''"]
    obtain success h' where
      r: "download_and_process_cover example_env example_hass ''media_player.old'' ''small'' =
            Inr (success, h')" and
      n: "\<forall>st s target_size response.
        states example_hass ''media_player.old'' = Some st \<and>
        map_of (attributes st) ''entity_picture'' = Some (PStr s) \<and> s \<noteq> [] \<and>
        map_of COVER_SIZES ''small'' = Some target_size \<and>
        session_get example_env
          (if take 1 s = ''/''
           then ''http://localhost:'' @ py_str example_env (server_port example_env) @ s
           else s) = Inr response \<and>
        status response \<noteq> 200 \<longrightarrow>
        \<not> success \<and>
        h' = log_to example_hass
               [(ERROR, Failed_to_download
                          (if take 1 s = ''/''
                           then ''http://localhost:'' @
                                py_str example_env (server_port example_env) @ s
                           else s)
                          (status response))]"
      by (elim exE conjE)
    have "states example_hass ''media_player.old'' = Some ?st \<and>
        map_of (attributes ?st) ''entity_picture'' = Some (PStr ''/api/gone'') \<and>
        ''/api/gone'' \<noteq> [] \<and>
        map_of COVER_SIZES ''small'' = Some (120, 120) \<and>
        session_get example_env
          (if take 1 ''/api/gone'' = ''/''
           then ''http://localhost:'' @ py_str example_env (server_port example_env) @
                ''/api/gone''
           else ''/api/gone'') = Inr ?resp \<and>
        status ?resp \<noteq> 200"
      by (simp add: example_hass_def example_states_def example_env_def
          example_session_get_def example_py_str_def COVER_SIZES_def)
    from n [rule_format, OF this] r show ?thesis
      by (simp add: example_env_def example_py_str_def)
  qed
  have d: "download_and_process_cover example_env example_hass ''media_player.web'' ''small'' =
     Inr (False,
          log_to example_hass
            [(ERROR, Error_processing_image (OtherException ''UnidentifiedImageError''))])"
  proof -
    let ?st = "\<lparr>state = ''playing'',
                attributes = [(''entity_picture'', PStr ''http://example.org/broken'')]\<rparr>"
    let ?resp = "\<lparr>status = 200, read = Inr ''garbage''\<rparr>"
    from download_and_process_cover_returns_bool
           [of example_env example_hass "''media_player.web''" "''small''"]
    obtain success h' where
      r: "download_and_process_cover example_env example_hass ''media_player.web'' ''small'' =
            Inr (success, h')" and
      n: "\<forall>st s target_size response image_data err.
        states example_hass ''media_player.web'' = Some st \<and>
        map_of (attributes st) ''entity_picture'' = Some (PStr s) \<and> s \<noteq> [] \<and>
        map_of COVER_SIZES ''small'' = Some target_size \<and>
        session_get example_env
          (if take 1 s = ''/''
           then ''http://localhost:'' @ py_str example_env (server_port example_env) @ s
           else s) = Inr response \<and>
        status response = 200 \<and> read response = Inr image_data \<and>
        (Image_open example_env image_data = Inl err \<or>
         (\<exists>opened. Image_open example_env image_data = Inr opened \<and>
            ((if mode opened \<in> {''RGBA'', ''P''} then convert_RGB example_env opened
              else Inr opened) = Inl err \<or>
             (\<exists>converted.
                (if mode opened \<in> {''RGBA'', ''P''} then convert_RGB example_env opened
                 else Inr opened) = Inr converted \<and>
                thumbnail example_env target_size converted = Inl err)))) \<longrightarrow>
        \<not> success \<and> h' = log_to example_hass [(ERROR, Error_processing_image err)]"
      by (elim exE conjE)
    have "states example_hass ''media_player.web'' = Some ?st \<and>
        map_of (attributes ?st) ''entity_picture'' = Some (PStr ''http://example.org/broken'') \<and>
        ''http://example.org/broken'' \<noteq> [] \<and>
        map_of COVER_SIZES ''small'' = Some (120, 120) \<and>
        session_get example_env
          (if take 1 ''http://example.org/broken'' = ''/''
           then ''http://localhost:'' @ py_str example_env (server_port example_env) @
                ''http://example.org/broken''
           else ''http://example.org/broken'') = Inr ?resp \<and>
        status ?resp = 200 \<and> read ?resp = Inr ''garbage'' \<and>
        (Image_open example_env ''garbage'' = Inl (OtherException ''UnidentifiedImageError'') \<or>
         (\<exists>opened. Image_open example_env ''garbage'' = Inr opened \<and>
            ((if mode opened \<in> {''RGBA'', ''P''} then convert_RGB example_env opened
              else Inr opened) = Inl (OtherException ''UnidentifiedImageError'') \<or>
             (\<exists>converted.
                (if mode opened \<in> {''RGBA'', ''P''} then convert_RGB example_env opened
                 else Inr opened) = Inr converted \<and>
                thumbnail example_env (120, 120) converted =
                  Inl (OtherException ''UnidentifiedImageError'')))))"
      by (simp add: example_hass_def example_states_def example_env_def
          example_session_get_def example_Image_open_def COVER_SIZES_def)
    from n [rule_format, OF this] r show ?thesis by simp
  qed
  have e: "\<exists>h'. download_and_process_cover example_env example_hass ''media_player.tv'' ''small'' =
           Inr (True, h')"
  proof -
    let ?st = "\<lparr>state = ''playing'', attributes = [(''entity_picture'', PStr ''/api/cover'')]\<rparr>"
    let ?resp = "\<lparr>status = 200, read = Inr ''image''\<rparr>"
    let ?opened = "\<lparr>mode = ''RGBA'', width = 1000, height = 1, rgb = white\<rparr>"
    let ?converted = "\<lparr>mode = ''RGB'', width = 1000, height = 1, rgb = white\<rparr>"
    let ?img = "\<lparr>mode = ''RGB'', width = 120, height = 1, rgb = white\<rparr>"
    from download_and_process_cover_returns_bool
           [of example_env example_hass "''media_player.tv''" "''small''"]
    obtain success h' where
      r: "download_and_process_cover example_env example_hass ''media_player.tv'' ''small'' =
            Inr (success, h')" and
      n: "success \<longleftrightarrow>
        (\<exists>st s target_size response image_data opened converted img.
           states example_hass ''media_player.tv'' = Some st \<and>
           map_of (attributes st) ''entity_picture'' = Some (PStr s) \<and> s \<noteq> [] \<and>
           map_of COVER_SIZES ''small'' = Some target_size \<and>
           session_get example_env
             (if take 1 s = ''/''
              then ''http://localhost:'' @ py_str example_env (server_port example_env) @ s
              else s) = Inr response \<and>
           status response = 200 \<and> read response = Inr image_data \<and>
           Image_open example_env image_data = Inr opened \<and>
           (if mode opened \<in> {''RGBA'', ''P''} then convert_RGB example_env opened
            else Inr opened) = Inr converted \<and>
           thumbnail example_env target_size converted = Inr img \<and>
           makedirs_error example_env = None \<and> save_error example_env = None)"
      by (elim exE conjE)
    have "states example_hass ''media_player.tv'' = Some ?st \<and>
           map_of (attributes ?st) ''entity_picture'' = Some (PStr ''/api/cover'') \<and>
           ''/api/cover'' \<noteq> [] \<and>
           map_of COVER_SIZES ''small'' = Some (120, 120) \<and>
           session_get example_env
             (if take 1 ''/api/cover'' = ''/''
              then ''http://localhost:'' @ py_str example_env (server_port example_env) @
                   ''/api/cover''
              else ''/api/cover'') = Inr ?resp \<and>
           status ?resp = 200 \<and> read ?resp = Inr ''image'' \<and>
           Image_open example_env ''image'' = Inr ?opened \<and>
           (if mode ?opened \<in> {''RGBA'', ''P''} then convert_RGB example_env ?opened
            else Inr ?opened) = Inr ?converted \<and>
           thumbnail example_env (120, 120) ?converted = Inr ?img \<and>
           makedirs_error example_env = None \<and> save_error example_env = None"
      by (simp add: example_hass_def example_states_def example_env_def
          example_session_get_def example_Image_open_def example_convert_RGB_def
          example_thumbnail_def example_py_str_def COVER_SIZES_def)
    then have "\<exists>st s target_size response image_data opened converted img.
           states example_hass ''media_player.tv'' = Some st \<and>
           map_of (attributes st) ''entity_picture'' = Some (PStr s) \<and> s \<noteq> [] \<and>
           map_of COVER_SIZES ''small'' = Some target_size \<and>
           session_get example_env
             (if take 1 s = ''/''
              then ''http://localhost:'' @ py_str example_env (server_port example_env) @ s
              else s) = Inr response \<and>
           status response = 200 \<and> read response = Inr image_data \<and>
           Image_open example_env image_data = Inr opened \<and>
           (if mode opened \<in> {''RGBA'', ''P''} then convert_RGB example_env opened
            else Inr opened) = Inr converted \<and>
           thumbnail example_env target_size converted = Inr img \<and>
           makedirs_error example_env = None \<and> save_error example_env = None"
      by (intro exI)
    with n have success by (rule iffD2)
    with r have "download_and_process_cover example_env example_hass ''media_player.tv''
        ''small'' = Inr (True, h')" by simp
    then show ?thesis by (rule exI)
  qed
  from a b c d e show ?thesis by (intro conjI)
qed






section \<open>Properties of the stored record\<close>

lemma update_stored_data_other:
  "k \<notin> {''language'', ''category'', ''grouped_translations'', ''translations_count'',
         ''requested_keys_count''} \<Longrightarrow>
   map_of (update_stored_data language category g n c stored_data) k = map_of stored_data k"
  by (simp add: update_stored_data_def update_conv')

lemma update_stored_data_fields:
  "map_of (update_stored_data language category g n c stored_data) ''language'' =
     Some (PStr language) \<and>
   map_of (update_stored_data language category g n c stored_data) ''category'' =
     Some (PStr category) \<and>
   map_of (update_stored_data language category g n c stored_data) ''grouped_translations'' =
     Some (grouped_to_py g) \<and>
   map_of (update_stored_data language category g n c stored_data) ''translations_count'' =
     Some (PInt (int n)) \<and>
   map_of (update_stored_data language category g n c stored_data) ''requested_keys_count'' =
     Some (PInt (int c))"
  by (simp add: update_stored_data_def update_conv')

lemma store_log_to: "store (log_to h entries) = store h"
  by (simp add: log_to_def)

lemma esphome_try_success:
  assumes "esphome_try e language category keys h = (None, h')"
  shows "\<exists>translations grouped_translations keys_count.
           (if truthy keys
            then filter_translations_by_keys
                   (fst (fetch_translations_for_category e language category)) keys
            else Inr (fst (fetch_translations_for_category e language category))) =
             Inr translations \<and>
           group_translations translations = Inr grouped_translations \<and>
           requested_keys_count keys = Inr keys_count \<and>
           async_load_error e = None \<and> async_save_error e = None \<and>
           store h' =
             Some (update_stored_data language category grouped_translations
                     (length translations) keys_count
                     (case store h of None \<Rightarrow> [] | Some d \<Rightarrow> d))"
  using assms
  by (auto simp: esphome_try_def Let_def log_to_def
      split: prod.splits sum.splits option.splits if_splits)

text \<open>
  C10. When a call of \<^verbatim>\<open>get_translations_esphome\<close> succeeds, that is when its
  \<^verbatim>\<open>try\<close> block ends without an exception, the record saved is the record loaded
  (the empty record when nothing was stored) with the five fields \<^verbatim>\<open>language\<close>,
  \<^verbatim>\<open>category\<close>, \<^verbatim>\<open>grouped_translations\<close>, \<^verbatim>\<open>translations_count\<close> and
  \<^verbatim>\<open>requested_keys_count\<close> set to the values of this call; every other field has in the
  saved record the value it had in the loaded one.
\<close>

theorem esphome_store_read_modify_write:
  assumes "normalize_keys e keys_raw = Inr (keys, entries)"
    and "esphome_try e language category keys (log_to h entries) = (None, h')"
  shows "handle_get_translations_esphome e language category keys_raw h = Inr h' \<and>
     (\<exists>stored translations grouped_translations keys_count.
        store h' = Some stored \<and>
        (if truthy keys
         then filter_translations_by_keys
                (fst (fetch_translations_for_category e language category)) keys
         else Inr (fst (fetch_translations_for_category e language category))) =
          Inr translations \<and>
        group_translations translations = Inr grouped_translations \<and>
        requested_keys_count keys = Inr keys_count \<and>
        map_of stored ''language'' = Some (PStr language) \<and>
        map_of stored ''category'' = Some (PStr category) \<and>
        map_of stored ''grouped_translations'' = Some (grouped_to_py grouped_translations) \<and>
        map_of stored ''translations_count'' = Some (PInt (int (length translations))) \<and>
        map_of stored ''requested_keys_count'' = Some (PInt (int keys_count)) \<and>
        (\<forall>k. k \<notin> {''language'', ''category'', ''grouped_translations'',
                   ''translations_count'', ''requested_keys_count''} \<longrightarrow>
             map_of stored k = map_of (case store h of None \<Rightarrow> [] | Some d \<Rightarrow> d) k))"
proof -
  from assms have a: "handle_get_translations_esphome e language category keys_raw h = Inr h'"
    by (simp add: handle_get_translations_esphome_def)
  from esphome_try_success [OF assms(2)]
  obtain trs grouped_translations keys_count where
    t: "(if truthy keys
         then filter_translations_by_keys
                (fst (fetch_translations_for_category e language category)) keys
         else Inr (fst (fetch_translations_for_category e language category))) =
          Inr trs" and
    g: "group_translations trs = Inr grouped_translations" and
    c: "requested_keys_count keys = Inr keys_count" and
    s: "store h' =
          Some (update_stored_data language category grouped_translations
                  (length trs) keys_count
                  (case store (log_to h entries) of None \<Rightarrow> [] | Some d \<Rightarrow> d))"
    by (elim exE conjE)
  let ?old = "case store h of None \<Rightarrow> [] | Some d \<Rightarrow> d"
  let ?new = "update_stored_data language category grouped_translations
                (length trs) keys_count ?old"
  from s have s': "store h' = Some ?new" by (simp add: store_log_to)
  have o: "\<forall>k. k \<notin> {''language'', ''category'', ''grouped_translations'',
                   ''translations_count'', ''requested_keys_count''} \<longrightarrow>
             map_of ?new k = map_of ?old k"
    by (intro allI impI) (rule update_stored_data_other)
  note f = update_stored_data_fields
             [of language category grouped_translations "length trs" keys_count ?old]
  from s' t g c f o
  have "\<exists>stored translations grouped_translations keys_count.
        store h' = Some stored \<and>
        (if truthy keys
         then filter_translations_by_keys
                (fst (fetch_translations_for_category e language category)) keys
         else Inr (fst (fetch_translations_for_category e language category))) =
          Inr translations \<and>
        group_translations translations = Inr grouped_translations \<and>
        requested_keys_count keys = Inr keys_count \<and>
        map_of stored ''language'' = Some (PStr language) \<and>
        map_of stored ''category'' = Some (PStr category) \<and>
        map_of stored ''grouped_translations'' = Some (grouped_to_py grouped_translations) \<and>
        map_of stored ''translations_count'' = Some (PInt (int (length translations))) \<and>
        map_of stored ''requested_keys_count'' = Some (PInt (int keys_count)) \<and>
        (\<forall>k. k \<notin> {''language'', ''category'', ''grouped_translations'',
                   ''translations_count'', ''requested_keys_count''} \<longrightarrow>
             map_of stored k = map_of ?old k)"
    by (intro exI [of _ ?new] exI [of _ trs] exI [of _ grouped_translations]
        exI [of _ keys_count] conjI) simp_all
  with a show ?thesis by (rule conjI)
qed

theorem esphome_store_read_modify_write_witness:
  "normalize_keys example_env (PList [PStr ''component.cover.entity_component._.state.open, x.y'']) =
     Inr (PList [PStr ''component.cover.entity_component._.state.open'', PStr ''x.y''], []) \<and>
   fst (esphome_try example_env ''de'' ''entity_component''
          (PList [PStr ''component.cover.entity_component._.state.open'', PStr ''x.y''])
          (log_to example_hass [])) = None \<and>
   store example_hass = Some [(''installed'', PBool True), (''language'', PStr ''en'')] \<and>
   (\<exists>h' stored.
      handle_get_translations_esphome example_env ''de'' ''entity_component''
        (PList [PStr ''component.cover.entity_component._.state.open, x.y'']) example_hass =
        Inr h' \<and>
      store h' = Some stored \<and>
      map_of stored ''installed'' = Some (PBool True) \<and>
      map_of stored ''language'' = Some (PStr ''de'') \<and>
      map_of stored ''category'' = Some (PStr ''entity_component'') \<and>
      map_of stored ''grouped_translations'' =
        Some (grouped_to_py [(''cover'', [(''open'', PStr ''Offen'')])]) \<and>
      map_of stored ''translations_count'' = Some (PInt 2) \<and>
      map_of stored ''requested_keys_count'' = Some (PInt 2))"
proof -
  define k1 where "k1 = ''component.cover.entity_component._.state.open''"
  define raw where "raw = PList [PStr (k1 @ '', x.y'')]"
  define keys where "keys = PList [PStr k1, PStr ''x.y'']"
  define fetched where "fetched = str_items
                  [(''component.vacuum.entity_component._.state.cleaning'', PStr ''Reinigt''),
                   (k1, PStr ''Offen'')]"
  define trs where "trs = [(PStr k1, PStr ''Offen''), (PStr ''x.y'', PStr ''x.y'')]"
  have ft: "fetch_translations_for_category example_env ''de'' ''entity_component'' =
              (fetched, [])"
    by (simp add: fetch_translations_for_category_def example_env_def example_translations_def
        fetched_def k1_def)
  have j: "json_loads example_env (k1 @ '', x.y'') = Inl JSONDecodeError"
    by (simp add: example_env_def example_json_loads_def k1_def)
  have n: "normalize_keys example_env raw = Inr (keys, [])"
    unfolding raw_def keys_def using j
    by (simp add: normalize_keys_single_str normalize_keys_str comma_split_def k1_def
        strip_def isspace_def)
  have fl: "filter_translations_by_keys fetched keys = Inr trs"
    by (simp add: filter_translations_by_keys_def fetched_def keys_def trs_def str_items_def
        k1_def)
  have sl: "component_slot k1 = Some (''cover'', ''open'')"
    by (simp add: component_slot_def k1_def)
  have sl2: "component_slot ''x.y'' = None"
    by (simp add: component_slot_def)
  have gr: "group_translations trs = Inr [(''cover'', [(''open'', PStr ''Offen'')])]"
    by (simp add: group_translations_def trs_def group_entry_slot sl sl2)
  have kc: "requested_keys_count keys = Inr 2"
    by (simp add: requested_keys_count_def keys_def)
  have tr: "truthy keys" by (simp add: keys_def)
  have ev: "async_load_error example_env = None" "async_save_error example_env = None"
    "json_dumps example_env = example_json_dumps"
    by (simp_all add: example_env_def)
  have e0: "fst (esphome_try example_env ''de'' ''entity_component'' keys
                  (log_to example_hass [])) = None"
    by (simp add: esphome_try_def ft fl gr kc tr Let_def ev example_json_dumps_def)
  then have e1: "esphome_try example_env ''de'' ''entity_component'' keys
                   (log_to example_hass []) =
                 (None, snd (esphome_try example_env ''de'' ''entity_component'' keys
                   (log_to example_hass [])))"
    by (simp add: prod_eq_iff)
  have st: "store example_hass = Some [(''installed'', PBool True), (''language'', PStr ''en'')]"
    by (simp add: example_hass_def)
  from esphome_store_read_modify_write [OF n e1]
  obtain h' stored trs' g' c' where
    h: "handle_get_translations_esphome example_env ''de'' ''entity_component'' raw
          example_hass = Inr h'" and
    s: "store h' = Some stored" and
    t': "(if truthy keys
          then filter_translations_by_keys
                 (fst (fetch_translations_for_category example_env ''de'' ''entity_component''))
                 keys
          else Inr (fst (fetch_translations_for_category example_env ''de''
                 ''entity_component''))) = Inr trs'" and
    g': "group_translations trs' = Inr g'" and
    c': "requested_keys_count keys = Inr c'" and
    m: "map_of stored ''language'' = Some (PStr ''de'')"
       "map_of stored ''category'' = Some (PStr ''entity_component'')"
       "map_of stored ''grouped_translations'' = Some (grouped_to_py g')"
       "map_of stored ''translations_count'' = Some (PInt (int (length trs')))"
       "map_of stored ''requested_keys_count'' = Some (PInt (int c'))" and
    o: "\<forall>k. k \<notin> {''language'', ''category'', ''grouped_translations'',
                   ''translations_count'', ''requested_keys_count''} \<longrightarrow>
             map_of stored k =
               map_of (case store example_hass of None \<Rightarrow> [] | Some d \<Rightarrow> d) k"
    by (elim exE conjE) blast
  from t' tr ft fl have "trs' = trs" by simp
  with g' gr have gg: "g' = [(''cover'', [(''open'', PStr ''Offen'')])]" by simp
  from c' kc have cc: "c' = 2" by simp
  have "map_of stored ''installed'' =
          map_of (case store example_hass of None \<Rightarrow> [] | Some d \<Rightarrow> d) ''installed''"
    by (rule o [rule_format]) simp
  then have i: "map_of stored ''installed'' = Some (PBool True)"
    by (simp add: st)
  from \<open>trs' = trs\<close> have len: "length trs' = 2" by (simp add: trs_def)
  from h s i m gg cc len
  have "\<exists>h' stored.
      handle_get_translations_esphome example_env ''de'' ''entity_component'' raw example_hass =
        Inr h' \<and>
      store h' = Some stored \<and>
      map_of stored ''installed'' = Some (PBool True) \<and>
      map_of stored ''language'' = Some (PStr ''de'') \<and>
      map_of stored ''category'' = Some (PStr ''entity_component'') \<and>
      map_of stored ''grouped_translations'' =
        Some (grouped_to_py [(''cover'', [(''open'', PStr ''Offen'')])]) \<and>
      map_of stored ''translations_count'' = Some (PInt 2) \<and>
      map_of stored ''requested_keys_count'' = Some (PInt 2)"
    by (intro exI [of _ h'] exI [of _ stored]) simp
  with n e0 st show ?thesis
    unfolding raw_def keys_def k1_def by simp
qed

end
